theory Spec2Isabelle
  imports Complex_Main
begin

section \<open>Breakout: the canvas, the game objects and the game loop\<close>

text \<open>
  A shallow embedding of \<^verbatim>\<open>game.py\<close>. The program keeps all its data in Python objects that
  are mutated in place and in one \<^verbatim>\<open>tk.Canvas\<close>; the model threads a \<open>state\<close> record through
  every method. Canvas coordinates are Python floats; they are modelled as exact reals.
\<close>

subsection \<open>Errors\<close>

text \<open>
  The exceptions the program can raise. \<open>InvalidRef\<close> has no counterpart in Python, where a
  reference always points to a live object of the expected class: it is the outcome of a
  method invoked through a reference that is not in the object store or is of another class.
\<close>

datatype error = KeyError | IndexError | TypeError | AttributeError | InvalidRef

text \<open>\<^verbatim>\<open>xs[i]\<close> for a literal index \<open>i \<ge> 0\<close>: \<open>None\<close> stands for the IndexError.\<close>

definition getitem :: "'a list \<Rightarrow> nat \<Rightarrow> 'a option" where
  "getitem xs i = (if i < length xs then Some (xs ! i) else None)"

subsection \<open>The canvas\<close>

text \<open>
  The part of \<^verbatim>\<open>tk.Canvas\<close> the program uses. An item has the coordinate list that
  \<^verbatim>\<open>coords\<close> returns and the options given at creation. Item ids are handed out in
  increasing order starting at 1 and are never reused. Operations on an id that names no
  item do nothing, and \<^verbatim>\<open>coords\<close> of such an id is the empty list.
\<close>

datatype item_type = oval | rectangle | canvas_text

record canvas_item =
  kind :: item_type
  item_coords :: "real list"
  fill :: "string option"
  tags :: "string list"
  label :: string
  font :: "(string \<times> nat) option"

datatype handler = slide_left | slide_right | start_game_handler

record canvas =
  citems :: "nat \<rightharpoonup> canvas_item"
  next_id :: nat
  winfo_width :: int
  bindings :: "string \<rightharpoonup> handler"

definition create :: "canvas \<Rightarrow> canvas_item \<Rightarrow> nat \<times> canvas" where
  "create c it = (next_id c, c\<lparr>citems := (citems c)(next_id c \<mapsto> it), next_id := Suc (next_id c)\<rparr>)"

definition create_oval :: "canvas \<Rightarrow> real \<Rightarrow> real \<Rightarrow> real \<Rightarrow> real \<Rightarrow> string \<Rightarrow> nat \<times> canvas" where
  "create_oval c x1 y1 x2 y2 col =
     create c \<lparr>kind = oval, item_coords = [x1, y1, x2, y2], fill = Some col, tags = [],
               label = [], font = None\<rparr>"

definition create_rectangle ::
  "canvas \<Rightarrow> real \<Rightarrow> real \<Rightarrow> real \<Rightarrow> real \<Rightarrow> string \<Rightarrow> string list \<Rightarrow> nat \<times> canvas" where
  "create_rectangle c x1 y1 x2 y2 col tgs =
     create c \<lparr>kind = rectangle, item_coords = [x1, y1, x2, y2], fill = Some col, tags = tgs,
               label = [], font = None\<rparr>"

definition create_text :: "canvas \<Rightarrow> real \<Rightarrow> real \<Rightarrow> string \<Rightarrow> string \<times> nat \<Rightarrow> nat \<times> canvas" where
  "create_text c x y txt fnt =
     create c \<lparr>kind = canvas_text, item_coords = [x, y], fill = None, tags = [],
               label = txt, font = Some fnt\<rparr>"

definition coords :: "canvas \<Rightarrow> nat \<Rightarrow> real list" where
  "coords c i = (case citems c i of None \<Rightarrow> [] | Some it \<Rightarrow> item_coords it)"

fun translate :: "real \<Rightarrow> real \<Rightarrow> real list \<Rightarrow> real list" where
  "translate dx dy (x # y # rest) = (x + dx) # (y + dy) # translate dx dy rest"
| "translate dx dy rest = rest"

definition canvas_move :: "canvas \<Rightarrow> nat \<Rightarrow> real \<Rightarrow> real \<Rightarrow> canvas" where
  "canvas_move c i dx dy =
     (case citems c i of
        None \<Rightarrow> c
      | Some it \<Rightarrow> c\<lparr>citems := (citems c)(i \<mapsto> it\<lparr>item_coords := translate dx dy (item_coords it)\<rparr>)\<rparr>)"

definition canvas_delete :: "canvas \<Rightarrow> nat \<Rightarrow> canvas" where
  "canvas_delete c i = c\<lparr>citems := (citems c)(i := None)\<rparr>"

definition itemconfig_fill :: "canvas \<Rightarrow> nat \<Rightarrow> string \<Rightarrow> canvas" where
  "itemconfig_fill c i col =
     (case citems c i of
        None \<Rightarrow> c
      | Some it \<Rightarrow> c\<lparr>citems := (citems c)(i \<mapsto> it\<lparr>fill := Some col\<rparr>)\<rparr>)"

definition itemconfig_text :: "canvas \<Rightarrow> nat \<Rightarrow> string \<Rightarrow> canvas" where
  "itemconfig_text c i txt =
     (case citems c i of
        None \<Rightarrow> c
      | Some it \<Rightarrow> c\<lparr>citems := (citems c)(i \<mapsto> it\<lparr>label := txt\<rparr>)\<rparr>)"

definition has_tag :: "canvas \<Rightarrow> string \<Rightarrow> nat \<Rightarrow> bool" where
  "has_tag c t i = (case citems c i of None \<Rightarrow> False | Some it \<Rightarrow> t \<in> set (tags it))"

definition find_withtag :: "canvas \<Rightarrow> string \<Rightarrow> nat list" where
  "find_withtag c t = filter (has_tag c t) [1..<next_id c]"

text \<open>
  \<^verbatim>\<open>find_overlapping\<close> returns the ids of the items that overlap a rectangle, in creation
  order. Which items the toolkit counts as overlapping (outlines, ovals, text extents) is
  not part of the program: the test is the parameter \<open>ov\<close>, given the rectangle and the item.
\<close>

type_synonym overlap_test = "real \<times> real \<times> real \<times> real \<Rightarrow> canvas_item \<Rightarrow> bool"

definition overlapped :: "overlap_test \<Rightarrow> canvas \<Rightarrow> real \<times> real \<times> real \<times> real \<Rightarrow> nat \<Rightarrow> bool" where
  "overlapped ov c box i = (case citems c i of None \<Rightarrow> False | Some it \<Rightarrow> ov box it)"

definition find_overlapping ::
  "overlap_test \<Rightarrow> canvas \<Rightarrow> real \<Rightarrow> real \<Rightarrow> real \<Rightarrow> real \<Rightarrow> nat list" where
  "find_overlapping ov c x1 y1 x2 y2 = filter (overlapped ov c (x1, y1, x2, y2)) [1..<next_id c]"

definition canvas_bind :: "canvas \<Rightarrow> string \<Rightarrow> handler \<Rightarrow> canvas" where
  "canvas_bind c ev h = c\<lparr>bindings := (bindings c)(ev \<mapsto> h)\<rparr>"

definition canvas_unbind :: "canvas \<Rightarrow> string \<Rightarrow> canvas" where
  "canvas_unbind c ev = c\<lparr>bindings := (bindings c)(ev := None)\<rparr>"

subsection \<open>Game objects and the state\<close>

text \<open>
  Every \<^verbatim>\<open>GameObject\<close> creates one fresh canvas item in its constructor and never changes
  its \<^verbatim>\<open>item\<close> field, so the item id names the object: a reference \<open>ref\<close> is the id of the
  object's item, and \<^verbatim>\<open>self.item\<close> is the reference itself. The objects live in a store
  (\<open>heap\<close>), so that the paddle's \<^verbatim>\<open>ball\<close>, the game's \<^verbatim>\<open>ball\<close> and the values of the
  \<^verbatim>\<open>items\<close> dictionary alias as they do in Python. \<^verbatim>\<open>Ball.direction\<close> is a list of two
  integers that is only read and written at the literal indices 0 and 1: a pair.
\<close>

type_synonym ref = nat

record ball_obj =
  radius :: int
  direction :: "int \<times> int"
  speed :: "int option"

record paddle_obj =
  paddle_width :: int
  paddle_height :: int
  paddle_ball :: "ref option"

record brick_obj =
  brick_width :: int
  brick_height :: int
  hits :: int

datatype game_object = Ball ball_obj | Paddle paddle_obj | Brick brick_obj

text \<open>What \<^verbatim>\<open>Game.after\<close> was called with: the delay and the callback.\<close>

datatype callback = game_loop_callback | no_callback

record state =
  canvas :: canvas
  heap :: "ref \<rightharpoonup> game_object"
  lives :: int
  width :: int
  height :: int
  items :: "nat \<rightharpoonup> ref"
  ball :: "ref option"
  paddle :: ref
  hud :: "nat option"
  text_item :: "nat option"
  after_calls :: "(nat \<times> callback) list"

text \<open>
  A method either returns the new state or raises: \<open>Inl (e, s)\<close> is the exception \<open>e\<close>
  raised in state \<open>s\<close> (what the method had already changed stays changed).
\<close>

type_synonym result = "(error \<times> state) + state"

definition and_then :: "result \<Rightarrow> (state \<Rightarrow> result) \<Rightarrow> result" where
  "and_then r f = (case r of Inl e \<Rightarrow> Inl e | Inr s \<Rightarrow> f s)"

subsection \<open>GameObject\<close>

definition get_position :: "state \<Rightarrow> ref \<Rightarrow> real list" where
  "get_position s self = coords (canvas s) self"

definition move :: "ref \<Rightarrow> real \<Rightarrow> real \<Rightarrow> state \<Rightarrow> state" where
  "move self x y s = s\<lparr>canvas := canvas_move (canvas s) self x y\<rparr>"

definition delete :: "ref \<Rightarrow> state \<Rightarrow> state" where
  "delete self s = s\<lparr>canvas := canvas_delete (canvas s) self\<rparr>"

subsection \<open>Brick\<close>

definition COLORS :: "int \<rightharpoonup> string" where
  "COLORS = [1 \<mapsto> ''#999999'', 2 \<mapsto> ''#555555'', 3 \<mapsto> ''#222222'']"

text \<open>
  \<^verbatim>\<open>Brick(canvas, x, y, hits)\<close>: the color is looked up before the item is created, so a
  KeyError leaves the canvas as it was. The result is the new brick's reference.
\<close>

definition Brick_init :: "real \<Rightarrow> real \<Rightarrow> int \<Rightarrow> state \<Rightarrow> (error \<times> state) + (ref \<times> state)" where
  "Brick_init x y h s =
     (case COLORS h of
        None \<Rightarrow> Inl (KeyError, s)
      | Some color \<Rightarrow>
          (let (item, c) = create_rectangle (canvas s) (x - 75 / 2) (y - 20 / 2)
                             (x + 75 / 2) (y + 20 / 2) color [''brick'']
           in Inr (item, s\<lparr>canvas := c,
                           heap := (heap s)(item \<mapsto> Brick \<lparr>brick_width = 75, brick_height = 20, hits = h\<rparr>)\<rparr>)))"

definition hit :: "ref \<Rightarrow> state \<Rightarrow> result" where
  "hit self s =
     (case heap s self of
        Some (Brick b) \<Rightarrow>
          (let b' = b\<lparr>hits := hits b - 1\<rparr>;
               s1 = s\<lparr>heap := (heap s)(self \<mapsto> Brick b')\<rparr>
           in if hits b' = 0 then Inr (delete self s1)
              else (case COLORS (hits b') of
                      None \<Rightarrow> Inl (KeyError, s1)
                    | Some color \<Rightarrow> Inr (s1\<lparr>canvas := itemconfig_fill (canvas s1) self color\<rparr>)))
      | _ \<Rightarrow> Inl (InvalidRef, s))"

fun hit_bricks :: "ref list \<Rightarrow> state \<Rightarrow> result" where
  "hit_bricks [] s = Inr s"
| "hit_bricks (game_object # rest) s =
     (case heap s game_object of
        Some (Brick b) \<Rightarrow> and_then (hit game_object s) (hit_bricks rest)
      | Some other \<Rightarrow> hit_bricks rest s
      | None \<Rightarrow> Inl (InvalidRef, s))"

subsection \<open>Ball\<close>

definition Ball_init :: "real \<Rightarrow> real \<Rightarrow> state \<Rightarrow> ref \<times> state" where
  "Ball_init x y s =
     (let (item, c) = create_oval (canvas s) (x - 10) (y - 10) (x + 10) (y + 10) ''white''
      in (item, s\<lparr>canvas := c,
                   heap := (heap s)(item \<mapsto> Ball \<lparr>radius = 10, direction = (1, -1), speed = Some 10\<rparr>)\<rparr>))"

definition set_direction :: "ref \<Rightarrow> ball_obj \<Rightarrow> int \<times> int \<Rightarrow> state \<Rightarrow> state" where
  "set_direction self b d s = s\<lparr>heap := (heap s)(self \<mapsto> Ball (b\<lparr>direction := d\<rparr>))\<rparr>"

definition update :: "ref \<Rightarrow> state \<Rightarrow> result" where
  "update self s =
     (case heap s self of
        Some (Ball b) \<Rightarrow>
          (let position = get_position s self;
               w = winfo_width (canvas s)
           in case getitem position 0 of
                None \<Rightarrow> Inl (IndexError, s)
              | Some p0 \<Rightarrow>
                  (case (if p0 \<le> 0 then Some True
                         else map_option (\<lambda>p2. p2 \<ge> of_int w) (getitem position 2)) of
                     None \<Rightarrow> Inl (IndexError, s)
                   | Some at_side \<Rightarrow>
                       (let d1 = (if at_side then (fst (direction b) * -1, snd (direction b))
                                  else direction b);
                            s1 = set_direction self b d1 s
                        in case getitem position 1 of
                             None \<Rightarrow> Inl (IndexError, s1)
                           | Some p1 \<Rightarrow>
                               (let d2 = (if p1 \<le> 0 then (fst d1, snd d1 * -1) else d1);
                                    s2 = set_direction self b d2 s1
                                in case speed b of
                                     None \<Rightarrow> Inl (TypeError, s2)
                                   | Some sp \<Rightarrow>
                                       (let x = fst d2 * sp;
                                            y = snd d2 * sp
                                        in Inr (move self (of_int x) (of_int y) s2))))))
      | _ \<Rightarrow> Inl (InvalidRef, s))"

definition collide :: "ref \<Rightarrow> ref list \<Rightarrow> state \<Rightarrow> result" where
  "collide self game_objects s =
     (case heap s self of
        Some (Ball b) \<Rightarrow>
          (let position = get_position s self
           in case getitem position 0 of
                None \<Rightarrow> Inl (IndexError, s)
              | Some p0 \<Rightarrow>
                  (case getitem position 2 of
                     None \<Rightarrow> Inl (IndexError, s)
                   | Some p2 \<Rightarrow>
                       (let x = (p0 + p2) * 0.5;
                            d = direction b
                        in and_then
                             (if length game_objects > 1 then
                                Inr (set_direction self b (fst d, snd d * -1) s)
                              else if length game_objects = 1 then
                                (case getitem game_objects 0 of
                                   None \<Rightarrow> Inl (IndexError, s)
                                 | Some game_object \<Rightarrow>
                                     (case heap s game_object of
                                        None \<Rightarrow> Inl (InvalidRef, s)
                                      | Some obj \<Rightarrow>
                                          (let obj_pos = get_position s game_object
                                           in case getitem obj_pos 2 of
                                                None \<Rightarrow> Inl (IndexError, s)
                                              | Some o2 \<Rightarrow>
                                                  if x > o2 then Inr (set_direction self b (1, snd d) s)
                                                  else (case getitem obj_pos 0 of
                                                          None \<Rightarrow> Inl (IndexError, s)
                                                        | Some o0 \<Rightarrow>
                                                            if x < o0 then
                                                              Inr (set_direction self b (-1, snd d) s)
                                                            else
                                                              Inr (set_direction self b (fst d, snd d * -1) s)))))
                              else Inr s)
                             (hit_bricks game_objects))))
      | _ \<Rightarrow> Inl (InvalidRef, s))"

subsection \<open>Paddle\<close>


definition set_ball :: "ref \<Rightarrow> ref option \<Rightarrow> state \<Rightarrow> result" where
  "set_ball self b s =
     (case heap s self of
        Some (Paddle p) \<Rightarrow> Inr (s\<lparr>heap := (heap s)(self \<mapsto> Paddle (p\<lparr>paddle_ball := b\<rparr>))\<rparr>)
      | _ \<Rightarrow> Inl (InvalidRef, s))"

definition slide :: "ref \<Rightarrow> real \<Rightarrow> state \<Rightarrow> result" where
  "slide self offset s =
     (case heap s self of
        Some (Paddle p) \<Rightarrow>
          (let coordinates = get_position s self;
               w = winfo_width (canvas s)
           in case getitem coordinates 0 of
                None \<Rightarrow> Inl (IndexError, s)
              | Some c0 \<Rightarrow>
                  (case (if c0 + offset \<ge> 0
                         then map_option (\<lambda>c2. c2 + offset \<le> of_int w) (getitem coordinates 2)
                         else Some False) of
                     None \<Rightarrow> Inl (IndexError, s)
                   | Some in_bounds \<Rightarrow>
                       (let s1 = (if in_bounds then move self offset 0 s else s)
                        in case paddle_ball p of
                             None \<Rightarrow> Inr s1
                           | Some b \<Rightarrow>
                               (case heap s1 b of
                                  Some (Ball bo) \<Rightarrow> Inr (move b offset 0 s1)
                                | _ \<Rightarrow> Inl (InvalidRef, s1)))))
      | _ \<Rightarrow> Inl (InvalidRef, s))"

text \<open>A sequence of \<^verbatim>\<open>slide\<close> calls, as the key bindings issue them one after another.\<close>

fun slides :: "ref \<Rightarrow> real list \<Rightarrow> state \<Rightarrow> result" where
  "slides self [] s = Inr s"
| "slides self (offset # rest) s = and_then (slide self offset s) (slides self rest)"

subsection \<open>Game\<close>

text \<open>\<^verbatim>\<open>'%s' % n\<close> for an integer: its decimal digits.\<close>

fun str_nat :: "nat \<Rightarrow> string" where
  "str_nat n = (if n < 10 then [char_of (48 + n)] else str_nat (n div 10) @ [char_of (48 + n mod 10)])"

definition str :: "int \<Rightarrow> string" where
  "str i = (if i < 0 then CHR ''-'' # str_nat (nat (- i)) else str_nat (nat i))"


definition after :: "nat \<Rightarrow> callback \<Rightarrow> state \<Rightarrow> state" where
  "after ms f s = s\<lparr>after_calls := after_calls s @ [(ms, f)]\<rparr>"

definition draw_text :: "real \<Rightarrow> real \<Rightarrow> string \<Rightarrow> nat \<Rightarrow> state \<Rightarrow> nat \<times> state" where
  "draw_text x y txt sz s =
     (let (item, c) = create_text (canvas s) x y txt (''Helvetica'', sz)
      in (item, s\<lparr>canvas := c\<rparr>))"

definition update_lives_text :: "state \<Rightarrow> state" where
  "update_lives_text s =
     (let txt = ''Lives: '' @ str (lives s)
      in case hud s of
           None \<Rightarrow> (let (item, s1) = draw_text 50 20 txt 15 s in s1\<lparr>hud := Some item\<rparr>)
         | Some h \<Rightarrow> s\<lparr>canvas := itemconfig_text (canvas s) h txt\<rparr>)"

definition add_ball :: "state \<Rightarrow> result" where
  "add_ball s =
     (let s1 = (case ball s of None \<Rightarrow> s | Some b \<Rightarrow> delete b s);
          paddle_pos = get_position s1 (paddle s1)
      in case getitem paddle_pos 0 of
           None \<Rightarrow> Inl (IndexError, s1)
         | Some p0 \<Rightarrow>
             (case getitem paddle_pos 2 of
                None \<Rightarrow> Inl (IndexError, s1)
              | Some p2 \<Rightarrow>
                  (let x = (p0 + p2) * 0.5;
                       (b, s2) = Ball_init x 310 s1;
                       s3 = s2\<lparr>ball := Some b\<rparr>
                   in set_ball (paddle s3) (Some b) s3)))"


definition setup_game :: "state \<Rightarrow> result" where
  "setup_game s =
     and_then (add_ball s) (\<lambda>s1.
       (let s2 = update_lives_text s1;
            (item, s3) = draw_text 300 200 ''Press Space to start'' 40 s2;
            s4 = s3\<lparr>text_item := Some item\<rparr>
        in Inr (s4\<lparr>canvas := canvas_bind (canvas s4) ''<space>'' start_game_handler\<rparr>)))"

text \<open>\<^verbatim>\<open>self.ball.speed = None\<close>\<close>

definition stop_ball :: "state \<Rightarrow> result" where
  "stop_ball s =
     (case ball s of
        None \<Rightarrow> Inl (AttributeError, s)
      | Some b \<Rightarrow>
          (case heap s b of
             Some (Ball bo) \<Rightarrow> Inr (s\<lparr>heap := (heap s)(b \<mapsto> Ball (bo\<lparr>speed := None\<rparr>))\<rparr>)
           | _ \<Rightarrow> Inl (InvalidRef, s)))"

definition check_collisions :: "overlap_test \<Rightarrow> state \<Rightarrow> result" where
  "check_collisions ov s =
     (case ball s of
        None \<Rightarrow> Inl (AttributeError, s)
      | Some b \<Rightarrow>
          (case get_position s b of
             [x1, y1, x2, y2] \<Rightarrow>
               (let found = find_overlapping ov (canvas s) x1 y1 x2 y2;
                    objects = List.map_filter (items s) found
                in collide b objects s)
           | _ \<Rightarrow> Inl (TypeError, s)))"

text \<open>
  One tick. \<^verbatim>\<open>self.after(1000, self.setup_game())\<close> calls \<^verbatim>\<open>setup_game\<close> at once and
  passes its result, \<^verbatim>\<open>None\<close>, to \<^verbatim>\<open>after\<close>.
\<close>

definition game_loop :: "overlap_test \<Rightarrow> state \<Rightarrow> result" where
  "game_loop ov s =
     and_then (check_collisions ov s) (\<lambda>s1.
       (let num_bricks = length (find_withtag (canvas s1) ''brick'')
        in if num_bricks = 0 then
             and_then (stop_ball s1) (\<lambda>s2. Inr (snd (draw_text 300 200 ''You win!'' 40 s2)))
           else
             (case ball s1 of
                None \<Rightarrow> Inl (AttributeError, s1)
              | Some b \<Rightarrow>
                  (case getitem (get_position s1 b) 3 of
                     None \<Rightarrow> Inl (IndexError, s1)
                   | Some bottom \<Rightarrow>
                       if bottom \<ge> of_int (height s1) then
                         and_then (stop_ball s1) (\<lambda>s2.
                           (let s3 = s2\<lparr>lives := lives s2 - 1\<rparr>
                            in if lives s3 \<le> 0 then
                                 Inr (snd (draw_text 300 200 ''Game Over'' 40 s3))
                               else
                                 and_then (setup_game s3) (\<lambda>s4. Inr (after 1000 no_callback s4))))
                       else
                         and_then (update b s1) (\<lambda>s2. Inr (after 50 game_loop_callback s2))))))"

definition start_game :: "overlap_test \<Rightarrow> state \<Rightarrow> result" where
  "start_game ov s =
     (let s1 = s\<lparr>canvas := canvas_unbind (canvas s) ''<space>''\<rparr>;
          s2 = (case text_item s1 of
                  None \<Rightarrow> s1
                | Some t \<Rightarrow> s1\<lparr>canvas := canvas_delete (canvas s1) t\<rparr>)
      in and_then (set_ball (paddle s2) None s2) (game_loop ov))"



text \<open>What a bound key does when it is pressed.\<close>

definition key_press :: "overlap_test \<Rightarrow> string \<Rightarrow> state \<Rightarrow> result" where
  "key_press ov ev s =
     (case bindings (canvas s) ev of
        None \<Rightarrow> Inr s
      | Some slide_left \<Rightarrow> slide (paddle s) (-10) s
      | Some slide_right \<Rightarrow> slide (paddle s) 10 s
      | Some start_game_handler \<Rightarrow> start_game ov s)"

subsection \<open>Outcomes and example states\<close>

text \<open>The state a call ends in, whether it returned or raised.\<close>

definition final :: "result \<Rightarrow> state" where
  "final r = (case r of Inl (e, s) \<Rightarrow> s | Inr s \<Rightarrow> s)"

definition returns :: "result \<Rightarrow> bool" where
  "returns r = (case r of Inl e \<Rightarrow> False | Inr s \<Rightarrow> True)"

definition raises :: "error \<Rightarrow> result \<Rightarrow> bool" where
  "raises e r = (case r of Inl (e', s) \<Rightarrow> e' = e | Inr s \<Rightarrow> False)"

text \<open>The paddle's \<^verbatim>\<open>ball\<close> field is \<^verbatim>\<open>None\<close> or refers to a \<^verbatim>\<open>Ball\<close>.\<close>

definition attached_ok :: "state \<Rightarrow> paddle_obj \<Rightarrow> bool" where
  "attached_ok s p =
     (case paddle_ball p of
        None \<Rightarrow> True
      | Some b \<Rightarrow> (case heap s b of Some (Ball bo) \<Rightarrow> True | _ \<Rightarrow> False))"

text \<open>Both components of a direction are \<open>1\<close> or \<open>-1\<close>.\<close>

definition unit_direction :: "int \<times> int \<Rightarrow> bool" where
  "unit_direction d = ((fst d = 1 \<or> fst d = -1) \<and> (snd d = 1 \<or> snd d = -1))"

text \<open>An overlap test for the examples: the closed bounding boxes intersect.\<close>

definition box_overlap :: overlap_test where
  "box_overlap box it =
     (case (box, item_coords it) of
        ((x1, y1, x2, y2), [a1, b1, a2, b2]) \<Rightarrow> a1 \<le> x2 \<and> x1 \<le> a2 \<and> b1 \<le> y2 \<and> y1 \<le> b2
      | _ \<Rightarrow> False)"

text \<open>
  A small game for the examples: the paddle (item 1), one column of bricks with 3, 2 and 1
  hits left (items 2, 3 and 4) and the ball (item 5). The paddle's and the ball's
  coordinates, the paddle's \<^verbatim>\<open>ball\<close> field and the lives are parameters.
\<close>

definition demo_rect :: "real list \<Rightarrow> string \<Rightarrow> string list \<Rightarrow> canvas_item" where
  "demo_rect box col tgs =
     \<lparr>kind = rectangle, item_coords = box, fill = Some col, tags = tgs, label = [], font = None\<rparr>"

definition demo_canvas :: "real list \<Rightarrow> real list \<Rightarrow> canvas" where
  "demo_canvas paddle_box ball_box =
     \<lparr>citems = [1 \<mapsto> demo_rect paddle_box ''blue'' [],
                2 \<mapsto> demo_rect [5, 40, 80, 60] ''#222222'' [''brick''],
                3 \<mapsto> demo_rect [5, 60, 80, 80] ''#555555'' [''brick''],
                4 \<mapsto> demo_rect [5, 80, 80, 100] ''#999999'' [''brick''],
                5 \<mapsto> \<lparr>kind = oval, item_coords = ball_box, fill = Some ''white'', tags = [],
                       label = [], font = None\<rparr>],
      next_id = 6, winfo_width = 600,
      bindings = [''<Left>'' \<mapsto> slide_left, ''<Right>'' \<mapsto> slide_right]\<rparr>"

definition demo_brick :: "int \<Rightarrow> brick_obj" where
  "demo_brick h = \<lparr>brick_width = 75, brick_height = 20, hits = h\<rparr>"

definition demo_ball :: ball_obj where
  "demo_ball = \<lparr>radius = 10, direction = (1, -1), speed = Some 10\<rparr>"

definition demo_paddle :: "ref option \<Rightarrow> paddle_obj" where
  "demo_paddle attached = \<lparr>paddle_width = 80, paddle_height = 10, paddle_ball = attached\<rparr>"

definition demo :: "real list \<Rightarrow> real list \<Rightarrow> ref option \<Rightarrow> int \<Rightarrow> state" where
  "demo paddle_box ball_box attached n =
     \<lparr>canvas = demo_canvas paddle_box ball_box,
      heap = [1 \<mapsto> Paddle (demo_paddle attached), 2 \<mapsto> Brick (demo_brick 3),
              3 \<mapsto> Brick (demo_brick 2), 4 \<mapsto> Brick (demo_brick 1), 5 \<mapsto> Ball demo_ball],
      lives = n, width = 600, height = 400,
      items = [1 \<mapsto> 1, 2 \<mapsto> 2, 3 \<mapsto> 3, 4 \<mapsto> 4],
      ball = Some 5, paddle = 1, hud = None, text_item = None, after_calls = []\<rparr>"

text \<open>
  What a call may change besides the ball and the paddle: \<open>frame s s'\<close> says that \<open>s'\<close> is
  \<open>s\<close> up to the object store and the canvas items, that every object that is not a brick
  and its canvas item are as in \<open>s\<close>, and that bricks are still bricks.
\<close>

definition is_brick :: "game_object option \<Rightarrow> bool" where
  "is_brick x = (case x of Some (Brick b) \<Rightarrow> True | _ \<Rightarrow> False)"

definition frame :: "state \<Rightarrow> state \<Rightarrow> bool" where
  "frame s s' =
     ((\<exists>h c. s' = s\<lparr>canvas := (canvas s)\<lparr>citems := c\<rparr>, heap := h\<rparr>)
      \<and> (\<forall>q. \<not> is_brick (heap s q) \<longrightarrow>
             heap s' q = heap s q \<and> citems (canvas s') q = citems (canvas s) q)
      \<and> (\<forall>q. is_brick (heap s q) \<longrightarrow> is_brick (heap s' q)))"

text \<open>
  A game object as \<^verbatim>\<open>check_collisions\<close> can pass it to \<^verbatim>\<open>collide\<close>: it is in the store
  and, when it is a brick, it has 1, 2 or 3 hits left (a brick is built with such a count
  and leaves the canvas when the count reaches 0).
\<close>

definition hittable :: "state \<Rightarrow> ref \<Rightarrow> bool" where
  "hittable s r =
     (case heap s r of
        None \<Rightarrow> False
      | Some (Brick br) \<Rightarrow> hits br = 1 \<or> hits br = 2 \<or> hits br = 3
      | Some other \<Rightarrow> True)"

text \<open>
  The direction change at the start of \<^verbatim>\<open>Ball.collide\<close>, for a ball whose horizontal
  centre is \<open>x\<close>: the part of \<open>collide\<close> between reading the position and hitting the
  bricks, named so that it can be reasoned about on its own (\<open>collide_bounce\<close> below).
\<close>

definition bounce :: "ref \<Rightarrow> ball_obj \<Rightarrow> real \<Rightarrow> ref list \<Rightarrow> state \<Rightarrow> result" where
  "bounce self b x game_objects s =
     (let d = direction b
      in if length game_objects > 1 then
           Inr (set_direction self b (fst d, snd d * -1) s)
         else if length game_objects = 1 then
           (case getitem game_objects 0 of
              None \<Rightarrow> Inl (IndexError, s)
            | Some game_object \<Rightarrow>
                (case heap s game_object of
                   None \<Rightarrow> Inl (InvalidRef, s)
                 | Some obj \<Rightarrow>
                     (let obj_pos = get_position s game_object
                      in case getitem obj_pos 2 of
                           None \<Rightarrow> Inl (IndexError, s)
                         | Some o2 \<Rightarrow>
                             if x > o2 then Inr (set_direction self b (1, snd d) s)
                             else (case getitem obj_pos 0 of
                                     None \<Rightarrow> Inl (IndexError, s)
                                   | Some o0 \<Rightarrow>
                                       if x < o0 then
                                         Inr (set_direction self b (-1, snd d) s)
                                       else
                                         Inr (set_direction self b (fst d, snd d * -1) s)))))
         else Inr s)"

text \<open>The example game once every brick has been hit down to 0 and removed from the canvas.\<close>

definition demo_cleared :: "real list \<Rightarrow> real list \<Rightarrow> ref option \<Rightarrow> int \<Rightarrow> state" where
  "demo_cleared paddle_box ball_box attached n =
     (let s = demo paddle_box ball_box attached n
      in s\<lparr>canvas := canvas_delete (canvas_delete (canvas_delete (canvas s) 2) 3) 4,
           heap := (heap s)(2 \<mapsto> Brick (demo_brick 0), 3 \<mapsto> Brick (demo_brick 0),
                            4 \<mapsto> Brick (demo_brick 0))\<rparr>)"

text \<open>The canvas item \<^verbatim>\<open>draw_text\<close> creates.\<close>

definition text_of :: "real \<Rightarrow> real \<Rightarrow> string \<Rightarrow> nat \<Rightarrow> canvas_item" where
  "text_of x y txt sz =
     \<lparr>kind = canvas_text, item_coords = [x, y], fill = None, tags = [], label = txt,
      font = Some (''Helvetica'', sz)\<rparr>"

section \<open>Properties\<close>

subsection \<open>Basic facts\<close>

lemma COLORS_simps:
  "COLORS h = (if h = 3 then Some ''#222222'' else if h = 2 then Some ''#555555''
               else if h = 1 then Some ''#999999'' else None)"
  by (simp add: COLORS_def)

lemma getitem_simps [simp]:
  "getitem [] i = None"
  "getitem (x # xs) 0 = Some x"
  "getitem (x # xs) (Suc i) = getitem xs i"
  by (simp_all add: getitem_def)

lemma getitem4 [simp]:
  "getitem [a, b, c, d] 1 = Some b"
  "getitem [a, b, c, d] 2 = Some c"
  "getitem [a, b, c, d] 3 = Some d"
  by (simp_all add: getitem_def)

lemma get_position_move:
  "get_position (move r dx dy s) q =
     (if q = r then translate dx dy (get_position s r) else get_position s q)"
  by (simp add: get_position_def move_def canvas_move_def coords_def split: option.splits)

lemma get_position_heap_upd [simp]: "get_position (s\<lparr>heap := h\<rparr>) q = get_position s q"
  by (simp add: get_position_def)

lemma get_position_set_direction [simp]:
  "get_position (set_direction r b d s) q = get_position s q"
  by (simp add: get_position_def set_direction_def)

lemma heap_move [simp]: "heap (move r dx dy s) = heap s"
  by (simp add: move_def)

lemma winfo_width_move [simp]: "winfo_width (canvas (move r dx dy s)) = winfo_width (canvas s)"
  by (simp add: move_def canvas_move_def split: option.splits)

lemma demo_heap [simp]:
  "heap (demo pb bb att n) 1 = Some (Paddle (demo_paddle att))"
  "heap (demo pb bb att n) (Suc 0) = Some (Paddle (demo_paddle att))"
  "heap (demo pb bb att n) 2 = Some (Brick (demo_brick 3))"
  "heap (demo pb bb att n) 3 = Some (Brick (demo_brick 2))"
  "heap (demo pb bb att n) 4 = Some (Brick (demo_brick 1))"
  "heap (demo pb bb att n) 5 = Some (Ball demo_ball)"
  by (simp_all add: demo_def)

lemma demo_position [simp]:
  "get_position (demo pb bb att n) 1 = pb"
  "get_position (demo pb bb att n) (Suc 0) = pb"
  "get_position (demo pb bb att n) 2 = [5, 40, 80, 60]"
  "get_position (demo pb bb att n) 3 = [5, 60, 80, 80]"
  "get_position (demo pb bb att n) 4 = [5, 80, 80, 100]"
  "get_position (demo pb bb att n) 5 = bb"
  by (simp_all add: demo_def demo_canvas_def demo_rect_def get_position_def coords_def)

lemma demo_fields [simp]:
  "winfo_width (canvas (demo pb bb att n)) = 600"
  "next_id (canvas (demo pb bb att n)) = 6"
  "lives (demo pb bb att n) = n"
  "height (demo pb bb att n) = 400"
  "ball (demo pb bb att n) = Some 5"
  "paddle (demo pb bb att n) = 1"
  "after_calls (demo pb bb att n) = []"
  by (simp_all add: demo_def demo_canvas_def)

subsection \<open>Brick\<close>

text \<open>
  C2. Every call to \<^verbatim>\<open>Brick.hit\<close> lowers the hit counter by exactly one, whether the call
  returns or raises. When the new count is zero the call returns and the brick's item is
  gone from the canvas; when it is not zero the item is on the canvas after the call exactly
  if it was before, with the same coordinates. A \<^verbatim>\<open>Brick\<close> is only ever built with a
  count of at most 3 and the count only goes down; for such a brick, when the new count is
  still positive the call returns and the item is the old one with its fill set to the
  color of the new count.
\<close>

theorem hit_decrements:
  assumes "heap s self = Some (Brick b)"
  shows "heap (final (hit self s)) self = Some (Brick (b\<lparr>hits := hits b - 1\<rparr>))
    \<and> (hits b - 1 = 0 \<longrightarrow>
          returns (hit self s) \<and> citems (canvas (final (hit self s))) self = None)
    \<and> (hits b - 1 \<noteq> 0 \<longrightarrow>
          map_option item_coords (citems (canvas (final (hit self s))) self) =
            map_option item_coords (citems (canvas s) self))
    \<and> (0 < hits b - 1 \<longrightarrow> hits b \<le> 3 \<longrightarrow>
          returns (hit self s) \<and>
          citems (canvas (final (hit self s))) self =
            map_option (\<lambda>it. it\<lparr>fill := COLORS (hits b - 1)\<rparr>) (citems (canvas s) self))"
  using assms
  by (auto simp: hit_def final_def returns_def Let_def delete_def canvas_delete_def
        itemconfig_fill_def COLORS_simps split: option.splits)

theorem hit_decrements_witness:
  "heap (demo [260, 321, 340, 331] [290, 300, 310, 320] None 3) 3 = Some (Brick (demo_brick 2))
   \<and> heap (final (hit 3 (demo [260, 321, 340, 331] [290, 300, 310, 320] None 3))) 3
        = Some (Brick (demo_brick 1))
   \<and> returns (hit 3 (demo [260, 321, 340, 331] [290, 300, 310, 320] None 3))
   \<and> citems (canvas (final (hit 3 (demo [260, 321, 340, 331] [290, 300, 310, 320] None 3)))) 3
        = Some (demo_rect [5, 60, 80, 80] ''#999999'' [''brick''])
   \<and> heap (final (hit 4 (demo [260, 321, 340, 331] [290, 300, 310, 320] None 3))) 4
        = Some (Brick (demo_brick 0))
   \<and> returns (hit 4 (demo [260, 321, 340, 331] [290, 300, 310, 320] None 3))
   \<and> citems (canvas (final (hit 4 (demo [260, 321, 340, 331] [290, 300, 310, 320] None 3)))) 4
        = None"
proof -
  let ?s = "demo [260, 321, 340, 331] [290, 300, 310, 320] None 3"
  have c3: "citems (canvas ?s) 3 = Some (demo_rect [5, 60, 80, 80] ''#555555'' [''brick''])"
    by (simp add: demo_def demo_canvas_def)
  have h3: "heap ?s 3 = Some (Brick (demo_brick 2))" by simp
  have h4: "heap ?s 4 = Some (Brick (demo_brick 1))" by simp
  show ?thesis
    using hit_decrements [OF h3] hit_decrements [OF h4] c3
    by (simp add: demo_brick_def demo_rect_def COLORS_simps)
qed

text \<open>
  C10. \<^verbatim>\<open>Brick(canvas, x, y, hits)\<close> raises KeyError, and leaves the state as it was, when
  \<open>hits\<close> is not 1, 2 or 3, and returns a brick with that count when it is. \<^verbatim>\<open>Brick.hit\<close>
  raises KeyError when the count after the decrement is none of 0, 1, 2 and 3, and returns
  when it is one of them (so it returns for every brick whose count is 1, 2 or 3).
\<close>

theorem brick_color_lookup_errors:
  "(h \<notin> {1, 2, 3} \<longrightarrow> Brick_init x y h s = Inl (KeyError, s))
   \<and> (h \<in> {1, 2, 3} \<longrightarrow>
        (\<exists>r s'. Brick_init x y h s = Inr (r, s')
           \<and> heap s' r = Some (Brick \<lparr>brick_width = 75, brick_height = 20, hits = h\<rparr>)))
   \<and> (heap s self = Some (Brick b) \<longrightarrow>
        (hits b - 1 \<notin> {0, 1, 2, 3} \<longrightarrow> raises KeyError (hit self s))
        \<and> (hits b - 1 \<in> {0, 1, 2, 3} \<longrightarrow> returns (hit self s)))"
  by (auto simp: Brick_init_def create_rectangle_def create_def COLORS_simps Let_def
        hit_def raises_def returns_def)

theorem brick_color_lookup_errors_witness:
  "Brick_init 42.5 50 4 (demo [260, 321, 340, 331] [290, 300, 310, 320] None 3)
      = Inl (KeyError, demo [260, 321, 340, 331] [290, 300, 310, 320] None 3)
   \<and> (\<exists>s'. Brick_init 42.5 50 2 (demo [260, 321, 340, 331] [290, 300, 310, 320] None 3)
          = Inr (6, s'))
   \<and> returns (hit 2 (demo [260, 321, 340, 331] [290, 300, 310, 320] None 3))
   \<and> raises KeyError
        (hit 4 ((demo [260, 321, 340, 331] [290, 300, 310, 320] None 3)
                 \<lparr>heap := (heap (demo [260, 321, 340, 331] [290, 300, 310, 320] None 3))
                            (4 \<mapsto> Brick (demo_brick 0))\<rparr>))"
proof -
  let ?s = "demo [260, 321, 340, 331] [290, 300, 310, 320] None 3"
  let ?d = "?s\<lparr>heap := (heap ?s)(4 \<mapsto> Brick (demo_brick 0))\<rparr>"
  have a: "Brick_init 42.5 50 4 ?s = Inl (KeyError, ?s)"
    using brick_color_lookup_errors [of 4 "42.5" 50 "?s"] by simp
  have b: "\<exists>s'. Brick_init 42.5 50 2 ?s = Inr (6, s')"
    using brick_color_lookup_errors [of 2 "42.5" 50 "?s"]
    by (auto simp: Brick_init_def create_rectangle_def create_def COLORS_simps Let_def)
  have c: "returns (hit 2 ?s)"
    using brick_color_lookup_errors [of 0 0 0 "?s" 2 "demo_brick 3"] by (simp add: demo_brick_def)
  have d: "raises KeyError (hit 4 ?d)"
    using brick_color_lookup_errors [of 0 0 0 "?d" 4 "demo_brick 0"] by (simp add: demo_brick_def)
  show ?thesis using a b c d by blast
qed

subsection \<open>Ball\<close>

text \<open>
  C3. \<^verbatim>\<open>Ball.update\<close> on a ball that is on the canvas and has a speed: the x component of
  the direction is negated exactly when the left edge is \<open>\<le> 0\<close> or the right edge is
  \<open>\<ge>\<close> the canvas width, the y component exactly when the top edge is \<open>\<le> 0\<close> (the bottom
  edge plays no part), and the ball is then moved by the new direction times the speed.
\<close>

theorem update_bounces_then_moves:
  assumes "heap s self = Some (Ball b)"
    and "get_position s self = [x1, y1, x2, y2]"
    and "speed b = Some v"
  shows "\<exists>s' dx dy. update self s = Inr s'
    \<and> dx = (if x1 \<le> 0 \<or> x2 \<ge> of_int (winfo_width (canvas s)) then - fst (direction b)
            else fst (direction b))
    \<and> dy = (if y1 \<le> 0 then - snd (direction b) else snd (direction b))
    \<and> heap s' self = Some (Ball (b\<lparr>direction := (dx, dy)\<rparr>))
    \<and> get_position s' self =
        [x1 + of_int (dx * v), y1 + of_int (dy * v), x2 + of_int (dx * v), y2 + of_int (dy * v)]"
  using assms
  by (simp add: update_def Let_def get_position_move set_direction_def)

theorem update_bounces_then_moves_witness:
  "heap (demo [260, 321, 340, 331] [0, 100, 20, 120] None 3) 5 = Some (Ball demo_ball)
   \<and> get_position (demo [260, 321, 340, 331] [0, 100, 20, 120] None 3) 5 = [0, 100, 20, 120]
   \<and> speed demo_ball = Some 10
   \<and> (\<exists>s'. update 5 (demo [260, 321, 340, 331] [0, 100, 20, 120] None 3) = Inr s'
        \<and> heap s' 5 = Some (Ball (demo_ball\<lparr>direction := (-1, -1)\<rparr>))
        \<and> get_position s' 5 = [-10, 90, 10, 110])"
proof -
  let ?s = "demo [260, 321, 340, 331] [0, 100, 20, 120] None 3"
  have h: "heap ?s 5 = Some (Ball demo_ball)" by simp
  have p: "get_position ?s 5 = [0, 100, 20, 120]" by simp
  have v: "speed demo_ball = Some 10" by (simp add: demo_ball_def)
  show ?thesis
    using update_bounces_then_moves [OF h p v] h p v by (simp add: demo_ball_def)
qed

subsection \<open>Paddle\<close>

lemma slide_step:
  assumes "heap s self = Some (Paddle p)"
    and "get_position s self = [x1, y1, x2, y2]"
    and "attached_ok s p"
  shows "\<exists>s'. slide self offset s = Inr s'
    \<and> heap s' = heap s
    \<and> winfo_width (canvas s') = winfo_width (canvas s)
    \<and> get_position s' self =
        (if 0 \<le> x1 + offset \<and> x2 + offset \<le> of_int (winfo_width (canvas s))
         then [x1 + offset, y1, x2 + offset, y2] else [x1, y1, x2, y2])"
  using assms
  by (auto simp: slide_def Let_def get_position_move attached_ok_def
      split: option.splits game_object.splits)

lemma attached_ok_heap: "heap s' = heap s \<Longrightarrow> attached_ok s' p = attached_ok s p"
  by (simp add: attached_ok_def split: option.splits)

lemma slides_in_bounds:
  assumes "heap s self = Some (Paddle p)"
    and "get_position s self = [x1, y1, x2, y2]"
    and "attached_ok s p"
    and "0 \<le> x1" and "x2 \<le> of_int (winfo_width (canvas s))"
  shows "\<exists>s' a b. slides self offsets s = Inr s' \<and> get_position s' self = [a, y1, b, y2]
           \<and> 0 \<le> a \<and> b \<le> of_int (winfo_width (canvas s))"
  using assms
proof (induction offsets arbitrary: s x1 x2)
  case Nil
  then show ?case by simp
next
  case (Cons offset rest)
  let ?W = "of_int (winfo_width (canvas s)) :: real"
  from slide_step [OF Cons.prems(1-3), of offset]
  obtain s1 where s1: "slide self offset s = Inr s1" and h1: "heap s1 = heap s"
    and w1: "winfo_width (canvas s1) = winfo_width (canvas s)"
    and p1: "get_position s1 self =
       (if 0 \<le> x1 + offset \<and> x2 + offset \<le> ?W
        then [x1 + offset, y1, x2 + offset, y2] else [x1, y1, x2, y2])"
    by blast
  have hp: "heap s1 self = Some (Paddle p)" using h1 Cons.prems(1) by simp
  have at: "attached_ok s1 p" using attached_ok_heap [OF h1, of p] Cons.prems(3) by simp
  have "\<exists>a b. get_position s1 self = [a, y1, b, y2] \<and> 0 \<le> a
          \<and> b \<le> of_int (winfo_width (canvas s1))"
  proof (cases "0 \<le> x1 + offset \<and> x2 + offset \<le> ?W")
    case True
    then show ?thesis using p1 w1 by simp
  next
    case False
    have "get_position s1 self = [x1, y1, x2, y2]" using p1 unfolding if_not_P [OF False] .
    then show ?thesis using w1 Cons.prems(4,5) by simp
  qed
  then obtain a b where ab: "get_position s1 self = [a, y1, b, y2]" and a0: "0 \<le> a"
    and bW1: "b \<le> of_int (winfo_width (canvas s1))" by blast
  from Cons.IH [OF hp ab at a0 bW1]
  obtain s' a' b' where "slides self rest s1 = Inr s'" "get_position s' self = [a', y1, b', y2]"
    "0 \<le> a'" "b' \<le> of_int (winfo_width (canvas s1))" by blast
  then show ?case using s1 w1 by (simp add: and_then_def)
qed

text \<open>
  C7. \<^verbatim>\<open>Paddle.slide\<close> on a paddle that is on the canvas: the call returns, the y
  coordinates of the paddle are unchanged, and the paddle is moved by the offset exactly when
  the shifted left edge is \<open>\<ge> 0\<close> and the shifted right edge is \<open>\<le>\<close> the canvas width.
  Hence a paddle within these bounds is within them after any sequence of such calls.
\<close>

theorem slide_keeps_paddle_in_bounds:
  assumes "heap s self = Some (Paddle p)"
    and "get_position s self = [x1, y1, x2, y2]"
    and "attached_ok s p"
  shows "(\<exists>s'. slide self offset s = Inr s'
      \<and> get_position s' self =
          (if 0 \<le> x1 + offset \<and> x2 + offset \<le> of_int (winfo_width (canvas s))
           then [x1 + offset, y1, x2 + offset, y2] else [x1, y1, x2, y2]))
    \<and> (0 \<le> x1 \<and> x2 \<le> of_int (winfo_width (canvas s)) \<longrightarrow>
        (\<exists>s' a b. slides self offsets s = Inr s' \<and> get_position s' self = [a, y1, b, y2]
           \<and> 0 \<le> a \<and> b \<le> of_int (winfo_width (canvas s))))"
proof (rule conjI)
  show "\<exists>s'. slide self offset s = Inr s'
      \<and> get_position s' self =
          (if 0 \<le> x1 + offset \<and> x2 + offset \<le> of_int (winfo_width (canvas s))
           then [x1 + offset, y1, x2 + offset, y2] else [x1, y1, x2, y2])"
    using slide_step [OF assms, of offset] by blast
next
  show "0 \<le> x1 \<and> x2 \<le> of_int (winfo_width (canvas s)) \<longrightarrow>
        (\<exists>s' a b. slides self offsets s = Inr s' \<and> get_position s' self = [a, y1, b, y2]
           \<and> 0 \<le> a \<and> b \<le> of_int (winfo_width (canvas s)))"
    using slides_in_bounds [OF assms, of offsets] by blast
qed

theorem slide_keeps_paddle_in_bounds_witness:
  "heap (demo [510, 321, 590, 331] [290, 300, 310, 320] None 3) 1 = Some (Paddle (demo_paddle None))
   \<and> get_position (demo [510, 321, 590, 331] [290, 300, 310, 320] None 3) 1 = [510, 321, 590, 331]
   \<and> attached_ok (demo [510, 321, 590, 331] [290, 300, 310, 320] None 3) (demo_paddle None)
   \<and> (\<exists>s'. slide 1 10 (demo [510, 321, 590, 331] [290, 300, 310, 320] None 3) = Inr s'
         \<and> get_position s' 1 = [520, 321, 600, 331])
   \<and> (\<exists>s'. slide 1 20 (demo [510, 321, 590, 331] [290, 300, 310, 320] None 3) = Inr s'
         \<and> get_position s' 1 = [510, 321, 590, 331])
   \<and> (\<exists>s' a b. slides 1 [10, 10, -10] (demo [510, 321, 590, 331] [290, 300, 310, 320] None 3) = Inr s'
         \<and> get_position s' 1 = [a, 321, b, 331] \<and> 0 \<le> a \<and> b \<le> 600)"
proof -
  let ?s = "demo [510, 321, 590, 331] [290, 300, 310, 320] None 3"
  have h: "heap ?s 1 = Some (Paddle (demo_paddle None))" by simp
  have p: "get_position ?s 1 = [510, 321, 590, 331]" by simp
  have a: "attached_ok ?s (demo_paddle None)" by (simp add: attached_ok_def demo_paddle_def)
  show ?thesis
    using slide_keeps_paddle_in_bounds [OF h p a, of 10 "[10, 10, -10]"]
      slide_keeps_paddle_in_bounds [OF h p a, of 20 "[]"] h p a
    by simp
qed

text \<open>
  C9. \<^verbatim>\<open>Paddle.slide\<close> while a ball is attached: the ball is moved by the offset whether
  or not the paddle is, so when the paddle stays (the offset would take it out of bounds)
  the ball is displaced relative to it, and nothing keeps the ball within the canvas.
\<close>

theorem slide_moves_attached_ball:
  assumes "heap s self = Some (Paddle p)"
    and "paddle_ball p = Some b"
    and "heap s b = Some (Ball bo)"
    and "get_position s self = [x1, y1, x2, y2]"
    and "get_position s b = [bx1, by1, bx2, by2]"
  shows "\<exists>s'. slide self offset s = Inr s'
      \<and> get_position s' b = [bx1 + offset, by1, bx2 + offset, by2]
      \<and> get_position s' self =
          (if 0 \<le> x1 + offset \<and> x2 + offset \<le> of_int (winfo_width (canvas s))
           then [x1 + offset, y1, x2 + offset, y2] else [x1, y1, x2, y2])"
proof -
  have ne: "b \<noteq> self" using assms(1,3) by auto
  show ?thesis using assms ne
    by (simp add: slide_def Let_def get_position_move)
qed

theorem slide_moves_attached_ball_witness:
  "heap (demo [520, 321, 600, 331] [550, 300, 570, 320] (Some 5) 3) 1
      = Some (Paddle (demo_paddle (Some 5)))
   \<and> paddle_ball (demo_paddle (Some 5)) = Some 5
   \<and> heap (demo [520, 321, 600, 331] [550, 300, 570, 320] (Some 5) 3) 5 = Some (Ball demo_ball)
   \<and> (\<exists>s'. slide 1 40 (demo [520, 321, 600, 331] [550, 300, 570, 320] (Some 5) 3) = Inr s'
        \<and> get_position s' 5 = [590, 300, 610, 320]
        \<and> get_position s' 1 = [520, 321, 600, 331]
        \<and> of_int (winfo_width (canvas s')) < (610 :: real))"
proof -
  let ?s = "demo [520, 321, 600, 331] [550, 300, 570, 320] (Some 5) 3"
  have h: "heap ?s 1 = Some (Paddle (demo_paddle (Some 5)))" by simp
  have a: "paddle_ball (demo_paddle (Some 5)) = Some 5" by (simp add: demo_paddle_def)
  have b: "heap ?s 5 = Some (Ball demo_ball)" by simp
  have p: "get_position ?s 1 = [520, 321, 600, 331]" by simp
  have q: "get_position ?s 5 = [550, 300, 570, 320]" by simp
  have w: "\<And>s'. slide 1 40 ?s = Inr s' \<Longrightarrow> winfo_width (canvas s') = 600"
    using slide_step [OF h p, of 40] a b by (auto simp: attached_ok_def)
  show ?thesis
    using slide_moves_attached_ball [OF h a b p q, of 40] h a b w by auto
qed

subsection \<open>What hitting bricks leaves alone\<close>

lemma frame_refl: "frame s s"
proof -
  have "s = s\<lparr>canvas := (canvas s)\<lparr>citems := citems (canvas s)\<rparr>, heap := heap s\<rparr>" by simp
  then show ?thesis unfolding frame_def by blast
qed

lemma frame_trans:
  assumes "frame s s1" and "frame s1 s2"
  shows "frame s s2"
proof -
  from assms(1) obtain h c where e1: "s1 = s\<lparr>canvas := (canvas s)\<lparr>citems := c\<rparr>, heap := h\<rparr>"
    unfolding frame_def by blast
  from assms(2) obtain h' c' where e2: "s2 = s1\<lparr>canvas := (canvas s1)\<lparr>citems := c'\<rparr>, heap := h'\<rparr>"
    unfolding frame_def by blast
  have "s2 = s\<lparr>canvas := (canvas s)\<lparr>citems := c'\<rparr>, heap := h'\<rparr>"
    using e1 e2 by simp
  moreover have "\<forall>q. \<not> is_brick (heap s q) \<longrightarrow>
             heap s2 q = heap s q \<and> citems (canvas s2) q = citems (canvas s) q"
    using assms unfolding frame_def by metis
  moreover have "\<forall>q. is_brick (heap s q) \<longrightarrow> is_brick (heap s2 q)"
    using assms unfolding frame_def by blast
  ultimately show ?thesis unfolding frame_def by blast
qed

lemma hit_frame: "frame s (final (hit r s))"
proof (cases "heap s r")
  case None
  then show ?thesis by (simp add: hit_def final_def frame_refl)
next
  case (Some obj)
  show ?thesis
  proof (cases obj)
    case (Brick b)
    let ?h = "(heap s)(r \<mapsto> Brick (b\<lparr>hits := hits b - 1\<rparr>))"
    have "\<exists>c. final (hit r s) = s\<lparr>canvas := (canvas s)\<lparr>citems := c\<rparr>, heap := ?h\<rparr>
            \<and> (\<forall>q. q \<noteq> r \<longrightarrow> c q = citems (canvas s) q)"
    proof (cases "hits b - 1 = 0")
      case True
      then show ?thesis using Some Brick
        by (intro exI [of _ "(citems (canvas s))(r := None)"])
           (simp add: hit_def final_def Let_def delete_def canvas_delete_def)
    next
      case False
      show ?thesis
      proof (cases "COLORS (hits b - 1)")
        case None
        then show ?thesis using Some Brick False
          by (intro exI [of _ "citems (canvas s)"]) (simp add: hit_def final_def Let_def)
      next
        case (Some col)
        show ?thesis
        proof (cases "citems (canvas s) r")
          case None
          then show ?thesis using \<open>heap s r = Some obj\<close> Brick False Some
            by (intro exI [of _ "citems (canvas s)"])
               (simp add: hit_def final_def Let_def itemconfig_fill_def)
        next
          case (Some it)
          then show ?thesis using \<open>heap s r = Some obj\<close> Brick False \<open>COLORS (hits b - 1) = Some col\<close>
            by (intro exI [of _ "(citems (canvas s))(r \<mapsto> it\<lparr>fill := Some col\<rparr>)"])
               (simp add: hit_def final_def Let_def itemconfig_fill_def)
        qed
      qed
    qed
    then obtain c where e: "final (hit r s) = s\<lparr>canvas := (canvas s)\<lparr>citems := c\<rparr>, heap := ?h\<rparr>"
      and c: "\<forall>q. q \<noteq> r \<longrightarrow> c q = citems (canvas s) q" by blast
    have br: "is_brick (heap s r)" using Some Brick by (simp add: is_brick_def)
    show ?thesis unfolding frame_def
    proof (intro conjI allI impI)
      show "\<exists>h c. final (hit r s) = s\<lparr>canvas := (canvas s)\<lparr>citems := c\<rparr>, heap := h\<rparr>"
        using e by blast
    next
      fix q assume "\<not> is_brick (heap s q)"
      then have "q \<noteq> r" using br by auto
      then show "heap (final (hit r s)) q = heap s q" using e by simp
      show "citems (canvas (final (hit r s))) q = citems (canvas s) q"
        using e c \<open>q \<noteq> r\<close> by simp
    next
      fix q assume "is_brick (heap s q)"
      then show "is_brick (heap (final (hit r s)) q)" using e by (simp add: is_brick_def)
    qed
  qed (use Some in \<open>simp_all add: hit_def final_def frame_refl\<close>)
qed

lemma final_and_then:
  "final (and_then r f) = (case r of Inl e \<Rightarrow> final r | Inr s \<Rightarrow> final (f s))"
  by (simp add: and_then_def final_def split: sum.splits)

lemma hit_bricks_frame: "frame s (final (hit_bricks rs s))"
proof (induction rs arbitrary: s)
  case Nil
  then show ?case by (simp add: final_def frame_refl)
next
  case (Cons r rest)
  show ?case
  proof (cases "heap s r")
    case None
    then show ?thesis by (simp add: final_def frame_refl)
  next
    case (Some obj)
    show ?thesis
    proof (cases obj)
      case (Brick b)
      show ?thesis
      proof (cases "hit r s")
        case (Inl e)
        then have "final (hit_bricks (r # rest) s) = final (hit r s)"
          using Some Brick by (simp add: final_and_then)
        then show ?thesis using hit_frame [of s r] by simp
      next
        case (Inr s1)
        then have "final (hit_bricks (r # rest) s) = final (hit_bricks rest s1)"
          using Some Brick by (simp add: final_and_then)
        moreover have "frame s s1" using hit_frame [of s r] Inr by (simp add: final_def)
        ultimately show ?thesis using Cons.IH [of s1] frame_trans by metis
      qed
    qed (use Some Cons.IH in simp_all)
  qed
qed

subsection \<open>Directions and collisions\<close>

lemma unit_flip_x: "unit_direction d \<Longrightarrow> unit_direction (fst d * -1, snd d)"
  by (auto simp: unit_direction_def)

lemma unit_flip_y: "unit_direction d \<Longrightarrow> unit_direction (fst d, snd d * -1)"
  by (auto simp: unit_direction_def)

lemma unit_set_x: "unit_direction d \<Longrightarrow> unit_direction (1, snd d) \<and> unit_direction (-1, snd d)"
  by (auto simp: unit_direction_def)

lemma update_final_ball:
  assumes "heap s self = Some (Ball b)"
  shows "\<exists>d. heap (final (update self s)) self = Some (Ball (b\<lparr>direction := d\<rparr>))
           \<and> (unit_direction (direction b) \<longrightarrow> unit_direction d)"
proof -
  let ?d = "direction b"
  have opts: "heap (final (update self s)) self = Some (Ball b)
      \<or> heap (final (update self s)) self = Some (Ball (b\<lparr>direction := (fst ?d * -1, snd ?d)\<rparr>))
      \<or> heap (final (update self s)) self = Some (Ball (b\<lparr>direction := (fst ?d, snd ?d * -1)\<rparr>))
      \<or> heap (final (update self s)) self = Some (Ball (b\<lparr>direction := (fst ?d * -1, snd ?d * -1)\<rparr>))"
    using assms
    by (simp add: update_def final_def Let_def set_direction_def split: option.splits)
  have b: "b = b\<lparr>direction := ?d\<rparr>" by simp
  from opts show ?thesis
  proof (elim disjE)
    assume "heap (final (update self s)) self = Some (Ball b)"
    then have "heap (final (update self s)) self = Some (Ball (b\<lparr>direction := ?d\<rparr>))" by simp
    then show ?thesis by blast
  next
    assume "heap (final (update self s)) self = Some (Ball (b\<lparr>direction := (fst ?d * -1, snd ?d)\<rparr>))"
    then show ?thesis using unit_flip_x by blast
  next
    assume "heap (final (update self s)) self = Some (Ball (b\<lparr>direction := (fst ?d, snd ?d * -1)\<rparr>))"
    then show ?thesis using unit_flip_y by blast
  next
    assume "heap (final (update self s)) self = Some (Ball (b\<lparr>direction := (fst ?d * -1, snd ?d * -1)\<rparr>))"
    moreover have "unit_direction ?d \<longrightarrow> unit_direction (fst ?d * -1, snd ?d * -1)"
      by (auto simp: unit_direction_def)
    ultimately show ?thesis by blast
  qed
qed

lemma collide_bounce:
  assumes "heap s self = Some (Ball b)"
    and "getitem (get_position s self) 0 = Some p0"
    and "getitem (get_position s self) 2 = Some p2"
  shows "collide self objs s = and_then (bounce self b ((p0 + p2) * 0.5) objs s) (hit_bricks objs)"
  using assms by (simp add: collide_def bounce_def Let_def)

lemma collide_no_position:
  assumes "heap s self = Some (Ball b)"
    and "getitem (get_position s self) 0 = None \<or> getitem (get_position s self) 2 = None"
  shows "collide self objs s = Inl (IndexError, s)"
  using assms by (auto simp: collide_def Let_def split: option.splits)

lemma bounce_cases:
  "(\<exists>e. bounce self b x objs s = Inl (e, s)) \<or> bounce self b x objs s = Inr s
     \<or> (\<exists>d. bounce self b x objs s = Inr (set_direction self b d s)
          \<and> (d = (fst (direction b), - snd (direction b))
              \<or> d = (1, snd (direction b)) \<or> d = (-1, snd (direction b))))"
  by (auto simp: bounce_def Let_def split: option.splits)

lemma bounce_many:
  "1 < length objs \<Longrightarrow>
     bounce self b x objs s = Inr (set_direction self b (fst (direction b), - snd (direction b)) s)"
  by (simp add: bounce_def Let_def)

lemma bounce_single:
  assumes "heap s g = Some obj" and "get_position s g = [o0, o1, o2, o3]"
  shows "bounce self b x [g] s =
     Inr (set_direction self b
           (if x > o2 then (1, snd (direction b))
            else if x < o0 then (-1, snd (direction b))
            else (fst (direction b), - snd (direction b))) s)"
  using assms by (simp add: bounce_def Let_def)


lemma hit_returns:
  assumes "heap s r = Some (Brick br)" and "hits br = 1 \<or> hits br = 2 \<or> hits br = 3"
  shows "\<exists>s1. hit r s = Inr s1 \<and> heap s1 = (heap s)(r \<mapsto> Brick (br\<lparr>hits := hits br - 1\<rparr>))"
  using assms
  by (auto simp: hit_def Let_def delete_def COLORS_simps)

lemma hit_bricks_hittable:
  assumes "distinct rs" and "\<forall>r\<in>set rs. hittable s r"
  shows "\<exists>s'. hit_bricks rs s = Inr s'
    \<and> (\<forall>r\<in>set rs. \<forall>br. heap s r = Some (Brick br) \<longrightarrow>
           heap s' r = Some (Brick (br\<lparr>hits := hits br - 1\<rparr>)))
    \<and> (\<forall>r. r \<notin> set rs \<longrightarrow> heap s' r = heap s r)"
  using assms
proof (induction rs arbitrary: s)
  case Nil
  then show ?case by simp
next
  case (Cons r rest)
  from Cons.prems have hr: "hittable s r" and d: "distinct rest" and nr: "r \<notin> set rest"
    and hrest: "\<forall>q\<in>set rest. hittable s q" by auto
  show ?case
  proof (cases "is_brick (heap s r)")
    case True
    then obtain br where br: "heap s r = Some (Brick br)"
      by (auto simp: is_brick_def split: option.splits game_object.splits)
    with hr have "hits br = 1 \<or> hits br = 2 \<or> hits br = 3" by (simp add: hittable_def)
    from hit_returns [OF br this] obtain s1 where s1: "hit r s = Inr s1"
      and h1: "heap s1 = (heap s)(r \<mapsto> Brick (br\<lparr>hits := hits br - 1\<rparr>))" by blast
    have "\<forall>q\<in>set rest. hittable s1 q"
      using hrest nr h1 by (auto simp: hittable_def)
    from Cons.IH [OF d this] obtain s' where s': "hit_bricks rest s1 = Inr s'"
      and a: "\<forall>q\<in>set rest. \<forall>b. heap s1 q = Some (Brick b) \<longrightarrow>
           heap s' q = Some (Brick (b\<lparr>hits := hits b - 1\<rparr>))"
      and b: "\<forall>q. q \<notin> set rest \<longrightarrow> heap s' q = heap s1 q" by blast
    have e: "hit_bricks (r # rest) s = Inr s'" using br s1 s' by (simp add: and_then_def)
    have "\<forall>q\<in>set (r # rest). \<forall>b. heap s q = Some (Brick b) \<longrightarrow>
           heap s' q = Some (Brick (b\<lparr>hits := hits b - 1\<rparr>))"
    proof (intro ballI allI impI)
      fix q b0
      assume q: "q \<in> set (r # rest)" and hb: "heap s q = Some (Brick b0)"
      show "heap s' q = Some (Brick (b0\<lparr>hits := hits b0 - 1\<rparr>))"
      proof (cases "q = r")
        case True
        then have "b0 = br" using hb br by simp
        moreover have "heap s' r = heap s1 r" using b nr by simp
        ultimately show ?thesis using True h1 by simp
      next
        case False
        then have qr: "q \<in> set rest" using q by simp
        have "heap s1 q = Some (Brick b0)" using False h1 hb by simp
        then show ?thesis using a qr by blast
      qed
    qed
    moreover have "\<forall>q. q \<notin> set (r # rest) \<longrightarrow> heap s' q = heap s q"
      using b h1 by auto
    ultimately show ?thesis using e by blast
  next
    case False
    with hr obtain obj where obj: "heap s r = Some obj"
      by (auto simp: hittable_def split: option.splits)
    have e: "hit_bricks (r # rest) s = hit_bricks rest s"
      using obj False by (cases obj) (simp_all add: is_brick_def)
    from Cons.IH [OF d hrest] obtain s' where s': "hit_bricks rest s = Inr s'"
      and a: "\<forall>q\<in>set rest. \<forall>b. heap s q = Some (Brick b) \<longrightarrow>
           heap s' q = Some (Brick (b\<lparr>hits := hits b - 1\<rparr>))"
      and b: "\<forall>q. q \<notin> set rest \<longrightarrow> heap s' q = heap s q" by blast
    have "\<forall>q\<in>set (r # rest). \<forall>b. heap s q = Some (Brick b) \<longrightarrow>
           heap s' q = Some (Brick (b\<lparr>hits := hits b - 1\<rparr>))"
      using a False by (auto simp: is_brick_def)
    moreover have "\<forall>q. q \<notin> set (r # rest) \<longrightarrow> heap s' q = heap s q"
      using b by auto
    ultimately show ?thesis using e s' by simp
  qed
qed

lemma hit_items:
  assumes "heap s r = Some (Brick br)" and "hits br = 1 \<or> hits br = 2 \<or> hits br = 3"
  shows "\<exists>s1. hit r s = Inr s1
    \<and> citems (canvas s1) r =
        (if hits br - 1 = 0 then None
         else map_option (\<lambda>it. it\<lparr>fill := COLORS (hits br - 1)\<rparr>) (citems (canvas s) r))
    \<and> (\<forall>q. q \<noteq> r \<longrightarrow> citems (canvas s1) q = citems (canvas s) q)"
  using assms
  by (auto simp: hit_def Let_def delete_def canvas_delete_def itemconfig_fill_def COLORS_simps
      split: option.splits)

lemma hit_bricks_items:
  assumes "distinct rs" and "\<forall>r\<in>set rs. hittable s r"
  shows "(\<forall>r\<in>set rs. \<forall>br. heap s r = Some (Brick br) \<longrightarrow>
           citems (canvas (final (hit_bricks rs s))) r =
             (if hits br - 1 = 0 then None
              else map_option (\<lambda>it. it\<lparr>fill := COLORS (hits br - 1)\<rparr>) (citems (canvas s) r)))
    \<and> (\<forall>q. q \<notin> set rs \<longrightarrow> citems (canvas (final (hit_bricks rs s))) q = citems (canvas s) q)"
  using assms
proof (induction rs arbitrary: s)
  case Nil
  then show ?case by (simp add: final_def)
next
  case (Cons r rest)
  from Cons.prems have hr: "hittable s r" and d: "distinct rest" and nr: "r \<notin> set rest"
    and hrest: "\<forall>q\<in>set rest. hittable s q" by auto
  show ?case
  proof (cases "is_brick (heap s r)")
    case True
    then obtain br where br: "heap s r = Some (Brick br)"
      by (auto simp: is_brick_def split: option.splits game_object.splits)
    with hr have hb: "hits br = 1 \<or> hits br = 2 \<or> hits br = 3" by (simp add: hittable_def)
    from hit_returns [OF br hb] obtain s1 where s1: "hit r s = Inr s1"
      and h1: "heap s1 = (heap s)(r \<mapsto> Brick (br\<lparr>hits := hits br - 1\<rparr>))" by blast
    from hit_items [OF br hb] s1
    have c1: "citems (canvas s1) r =
        (if hits br - 1 = 0 then None
         else map_option (\<lambda>it. it\<lparr>fill := COLORS (hits br - 1)\<rparr>) (citems (canvas s) r))"
      and c2: "\<forall>q. q \<noteq> r \<longrightarrow> citems (canvas s1) q = citems (canvas s) q" by auto
    have "\<forall>q\<in>set rest. hittable s1 q"
      using hrest nr h1 by (auto simp: hittable_def)
    from Cons.IH [OF d this]
    have a: "\<forall>q\<in>set rest. \<forall>b. heap s1 q = Some (Brick b) \<longrightarrow>
           citems (canvas (final (hit_bricks rest s1))) q =
             (if hits b - 1 = 0 then None
              else map_option (\<lambda>it. it\<lparr>fill := COLORS (hits b - 1)\<rparr>) (citems (canvas s1) q))"
      and b: "\<forall>q. q \<notin> set rest \<longrightarrow> citems (canvas (final (hit_bricks rest s1))) q = citems (canvas s1) q"
      by blast+
    have e: "final (hit_bricks (r # rest) s) = final (hit_bricks rest s1)"
      using br s1 by (simp add: and_then_def)
    have "\<forall>q\<in>set (r # rest). \<forall>b0. heap s q = Some (Brick b0) \<longrightarrow>
           citems (canvas (final (hit_bricks rest s1))) q =
             (if hits b0 - 1 = 0 then None
              else map_option (\<lambda>it. it\<lparr>fill := COLORS (hits b0 - 1)\<rparr>) (citems (canvas s) q))"
    proof (intro ballI allI impI)
      fix q b0
      assume q: "q \<in> set (r # rest)" and hb0: "heap s q = Some (Brick b0)"
      show "citems (canvas (final (hit_bricks rest s1))) q =
             (if hits b0 - 1 = 0 then None
              else map_option (\<lambda>it. it\<lparr>fill := COLORS (hits b0 - 1)\<rparr>) (citems (canvas s) q))"
      proof (cases "q = r")
        case True
        then have "b0 = br" using hb0 br by simp
        moreover have "citems (canvas (final (hit_bricks rest s1))) r = citems (canvas s1) r"
          using b nr by simp
        ultimately show ?thesis using True c1 by simp
      next
        case False
        then have qr: "q \<in> set rest" using q by simp
        have "heap s1 q = Some (Brick b0)" using False h1 hb0 by simp
        moreover have "citems (canvas s1) q = citems (canvas s) q" using c2 False by simp
        ultimately show ?thesis using a qr by simp
      qed
    qed
    moreover have "\<forall>q. q \<notin> set (r # rest) \<longrightarrow>
        citems (canvas (final (hit_bricks rest s1))) q = citems (canvas s) q"
      using b c2 by auto
    ultimately show ?thesis unfolding e by blast
  next
    case False
    with hr obtain obj where obj: "heap s r = Some obj"
      by (auto simp: hittable_def split: option.splits)
    have e: "hit_bricks (r # rest) s = hit_bricks rest s"
      using obj False by (cases obj) (simp_all add: is_brick_def)
    from Cons.IH [OF d hrest]
    have a: "\<forall>q\<in>set rest. \<forall>b. heap s q = Some (Brick b) \<longrightarrow>
           citems (canvas (final (hit_bricks rest s))) q =
             (if hits b - 1 = 0 then None
              else map_option (\<lambda>it. it\<lparr>fill := COLORS (hits b - 1)\<rparr>) (citems (canvas s) q))"
      and b: "\<forall>q. q \<notin> set rest \<longrightarrow> citems (canvas (final (hit_bricks rest s))) q = citems (canvas s) q"
      by blast+
    have "\<forall>q\<in>set (r # rest). \<forall>b. heap s q = Some (Brick b) \<longrightarrow>
           citems (canvas (final (hit_bricks rest s))) q =
             (if hits b - 1 = 0 then None
              else map_option (\<lambda>it. it\<lparr>fill := COLORS (hits b - 1)\<rparr>) (citems (canvas s) q))"
      using a False by (auto simp: is_brick_def)
    moreover have "\<forall>q. q \<notin> set (r # rest) \<longrightarrow>
        citems (canvas (final (hit_bricks rest s))) q = citems (canvas s) q"
      using b by auto
    ultimately show ?thesis unfolding e by blast
  qed
qed

lemma collide_final_ball:
  assumes "heap s self = Some (Ball b)"
  shows "\<exists>d. heap (final (collide self objs s)) self = Some (Ball (b\<lparr>direction := d\<rparr>))
           \<and> (unit_direction (direction b) \<longrightarrow> unit_direction d)"
proof -
  have same: "\<exists>d. heap s self = Some (Ball (b\<lparr>direction := d\<rparr>))
           \<and> (unit_direction (direction b) \<longrightarrow> unit_direction d)"
    using assms by (intro exI [of _ "direction b"]) simp
  have nb: "\<not> is_brick (heap s self)" using assms by (simp add: is_brick_def)
  show ?thesis
  proof (cases "getitem (get_position s self) 0 = None \<or> getitem (get_position s self) 2 = None")
    case True
    from collide_no_position [OF assms True]
    have "final (collide self objs s) = s" by (simp add: final_def)
    then show ?thesis using same by simp
  next
    case False
    then obtain p0 p2 where p: "getitem (get_position s self) 0 = Some p0"
      "getitem (get_position s self) 2 = Some p2" by auto
    let ?r = "bounce self b ((p0 + p2) * 0.5) objs s"
    have c: "collide self objs s = and_then ?r (hit_bricks objs)"
      by (rule collide_bounce [OF assms p])
    from bounce_cases [of self b "(p0 + p2) * 0.5" objs s]
    consider e where "?r = Inl (e, s)" | "?r = Inr s"
      | d where "?r = Inr (set_direction self b d s)"
          "d = (fst (direction b), - snd (direction b))
              \<or> d = (1, snd (direction b)) \<or> d = (-1, snd (direction b))"
      by blast
    then show ?thesis
    proof cases
      case 1
      then have "final (collide self objs s) = s" using c by (simp add: and_then_def final_def)
      then show ?thesis using same by simp
    next
      case 2
      then have "final (collide self objs s) = final (hit_bricks objs s)"
        using c by (simp add: and_then_def)
      moreover have "heap (final (hit_bricks objs s)) self = heap s self"
        using hit_bricks_frame [of s objs] nb unfolding frame_def by blast
      ultimately show ?thesis using same by simp
    next
      case 3
      let ?s0 = "set_direction self b d s"
      have h0: "heap ?s0 self = Some (Ball (b\<lparr>direction := d\<rparr>))"
        by (simp add: set_direction_def)
      then have "\<not> is_brick (heap ?s0 self)" by (simp add: is_brick_def)
      then have "heap (final (hit_bricks objs ?s0)) self = heap ?s0 self"
        using hit_bricks_frame [of ?s0 objs] unfolding frame_def by blast
      moreover have "final (collide self objs s) = final (hit_bricks objs ?s0)"
        using c 3(1) by (simp add: and_then_def)
      ultimately have "heap (final (collide self objs s)) self = Some (Ball (b\<lparr>direction := d\<rparr>))"
        using h0 by simp
      moreover have "unit_direction (direction b) \<longrightarrow> unit_direction d"
        using 3(2) by (auto simp: unit_direction_def)
      ultimately show ?thesis by blast
    qed
  qed
qed

text \<open>
  C8. Both components of a ball's direction are always 1 or -1: a new ball has the direction
  (1, -1), and \<^verbatim>\<open>Ball.update\<close> and \<^verbatim>\<open>Ball.collide\<close>, the only operations that write
  the direction, leave the ball with such a direction when it had one, whether they return
  or raise.
\<close>

theorem direction_stays_unit:
  "(\<exists>bo. heap (snd (Ball_init x y s)) (fst (Ball_init x y s)) = Some (Ball bo)
        \<and> direction bo = (1, -1) \<and> unit_direction (direction bo))
   \<and> (heap s self = Some (Ball b) \<longrightarrow> unit_direction (direction b) \<longrightarrow>
        (\<exists>b'. heap (final (update self s)) self = Some (Ball b') \<and> unit_direction (direction b'))
        \<and> (\<exists>b'. heap (final (collide self objs s)) self = Some (Ball b')
              \<and> unit_direction (direction b')))"
proof (intro conjI impI)
  show "\<exists>bo. heap (snd (Ball_init x y s)) (fst (Ball_init x y s)) = Some (Ball bo)
        \<and> direction bo = (1, -1) \<and> unit_direction (direction bo)"
    by (simp add: Ball_init_def create_oval_def create_def unit_direction_def)
next
  assume h: "heap s self = Some (Ball b)" and u: "unit_direction (direction b)"
  from update_final_ball [OF h] u
  show "\<exists>b'. heap (final (update self s)) self = Some (Ball b') \<and> unit_direction (direction b')"
    by force
  from collide_final_ball [OF h, of objs] u
  show "\<exists>b'. heap (final (collide self objs s)) self = Some (Ball b')
              \<and> unit_direction (direction b')"
    by force
qed

theorem direction_stays_unit_witness:
  "heap (demo [260, 321, 340, 331] [30, 95, 50, 115] None 3) 5 = Some (Ball demo_ball)
   \<and> unit_direction (direction demo_ball)
   \<and> (\<exists>b'. heap (final (update 5 (demo [260, 321, 340, 331] [30, 95, 50, 115] None 3))) 5
              = Some (Ball b') \<and> unit_direction (direction b'))
   \<and> (\<exists>b'. heap (final (collide 5 [4] (demo [260, 321, 340, 331] [30, 95, 50, 115] None 3))) 5
              = Some (Ball b') \<and> unit_direction (direction b'))"
proof -
  let ?s = "demo [260, 321, 340, 331] [30, 95, 50, 115] None 3"
  have h: "heap ?s 5 = Some (Ball demo_ball)" by simp
  have u: "unit_direction (direction demo_ball)" by (simp add: demo_ball_def unit_direction_def)
  show ?thesis
    using direction_stays_unit [of 0 0 ?s 5 demo_ball "[4]"] h u by blast
qed

lemma collide_live:
  assumes h: "heap s self = Some (Ball b)"
    and p: "get_position s self = [x1, y1, x2, y2]"
    and ne: "game_objects \<noteq> []"
    and di: "distinct game_objects"
    and li: "\<forall>r\<in>set game_objects. hittable s r \<and> length (get_position s r) = 4"
  shows "\<exists>s' d. collide self game_objects s = Inr s'
     \<and> frame (set_direction self b d s) s'
     \<and> heap s' self = Some (Ball (b\<lparr>direction := d\<rparr>))
     \<and> (1 < length game_objects \<longrightarrow> d = (fst (direction b), - snd (direction b)))
     \<and> (\<forall>g. game_objects = [g] \<longrightarrow>
           d = (if (x1 + x2) * 0.5 > get_position s g ! 2 then (1, snd (direction b))
                else if (x1 + x2) * 0.5 < get_position s g ! 0 then (-1, snd (direction b))
                else (fst (direction b), - snd (direction b))))
     \<and> (\<forall>r\<in>set game_objects. \<forall>br. heap s r = Some (Brick br) \<longrightarrow>
           heap s' r = Some (Brick (br\<lparr>hits := hits br - 1\<rparr>)))
     \<and> (\<forall>r. r \<noteq> self \<longrightarrow> r \<notin> set game_objects \<or> \<not> is_brick (heap s r) \<longrightarrow>
           heap s' r = heap s r)
     \<and> (\<forall>r\<in>set game_objects. \<forall>br. heap s r = Some (Brick br) \<longrightarrow>
           citems (canvas s') r =
             (if hits br - 1 = 0 then None
              else map_option (\<lambda>it. it\<lparr>fill := COLORS (hits br - 1)\<rparr>) (citems (canvas s) r)))
     \<and> (\<forall>r. r \<notin> set game_objects \<or> \<not> is_brick (heap s r) \<longrightarrow>
           citems (canvas s') r = citems (canvas s) r)"
proof -
  let ?x = "(x1 + x2) * 0.5"
  let ?flip = "(fst (direction b), - snd (direction b))"
  have p0: "getitem (get_position s self) 0 = Some x1" and p2: "getitem (get_position s self) 2 = Some x2"
    using p by simp_all
  have c: "collide self game_objects s = and_then (bounce self b ?x game_objects s) (hit_bricks game_objects)"
    by (rule collide_bounce [OF h p0 p2])
  have "\<exists>d. bounce self b ?x game_objects s = Inr (set_direction self b d s)
     \<and> (1 < length game_objects \<longrightarrow> d = ?flip)
     \<and> (\<forall>g. game_objects = [g] \<longrightarrow>
           d = (if ?x > get_position s g ! 2 then (1, snd (direction b))
                else if ?x < get_position s g ! 0 then (-1, snd (direction b))
                else ?flip))"
  proof (cases "1 < length game_objects")
    case True
    then have "\<forall>g. game_objects \<noteq> [g]" by auto
    then show ?thesis using bounce_many [OF True, of self b ?x s] True by simp
  next
    case False
    with ne obtain g where g: "game_objects = [g]"
      by (cases game_objects) (auto simp: Suc_lessI)
    with li have hg: "hittable s g" and lg: "length (get_position s g) = 4" by simp_all
    from hg obtain obj where obj: "heap s g = Some obj"
      by (auto simp: hittable_def split: option.splits)
    from lg obtain o0 o1 o2 o3 where og: "get_position s g = [o0, o1, o2, o3]"
      by (auto simp: length_Suc_conv numeral_eq_Suc)
    show ?thesis using bounce_single [OF obj og, of self b ?x] g og by simp
  qed
  then obtain d where bd: "bounce self b ?x game_objects s = Inr (set_direction self b d s)"
    and d1: "1 < length game_objects \<longrightarrow> d = ?flip"
    and d2: "\<forall>g. game_objects = [g] \<longrightarrow>
           d = (if ?x > get_position s g ! 2 then (1, snd (direction b))
                else if ?x < get_position s g ! 0 then (-1, snd (direction b))
                else ?flip)"
    by blast
  let ?s0 = "set_direction self b d s"
  have h0: "heap ?s0 = (heap s)(self \<mapsto> Ball (b\<lparr>direction := d\<rparr>))"
    by (simp add: set_direction_def)
  have hq: "\<forall>r\<in>set game_objects. hittable ?s0 r"
    using li h0 by (auto simp: hittable_def)
  from hit_bricks_hittable [OF di hq] obtain s' where s': "hit_bricks game_objects ?s0 = Inr s'"
    and a: "\<forall>r\<in>set game_objects. \<forall>br. heap ?s0 r = Some (Brick br) \<longrightarrow>
           heap s' r = Some (Brick (br\<lparr>hits := hits br - 1\<rparr>))"
    and n: "\<forall>r. r \<notin> set game_objects \<longrightarrow> heap s' r = heap ?s0 r" by blast
  have fr: "frame ?s0 s'" using hit_bricks_frame [of ?s0 game_objects] s' by (simp add: final_def)
  have e: "collide self game_objects s = Inr s'" using c bd s' by (simp add: and_then_def)
  have "\<not> is_brick (heap ?s0 self)" using h0 by (simp add: is_brick_def)
  then have hs: "heap s' self = Some (Ball (b\<lparr>direction := d\<rparr>))"
    using fr h0 unfolding frame_def by simp
  have hb: "\<forall>r\<in>set game_objects. \<forall>br. heap s r = Some (Brick br) \<longrightarrow>
           heap s' r = Some (Brick (br\<lparr>hits := hits br - 1\<rparr>))"
  proof (intro ballI allI impI)
    fix r br assume r: "r \<in> set game_objects" and b: "heap s r = Some (Brick br)"
    then have "r \<noteq> self" using h by auto
    then have "heap ?s0 r = Some (Brick br)" using h0 b by simp
    then show "heap s' r = Some (Brick (br\<lparr>hits := hits br - 1\<rparr>))" using a r by blast
  qed
  have ho: "\<forall>r. r \<noteq> self \<longrightarrow> r \<notin> set game_objects \<or> \<not> is_brick (heap s r) \<longrightarrow>
           heap s' r = heap s r"
  proof (intro allI impI)
    fix r assume ne: "r \<noteq> self" and o: "r \<notin> set game_objects \<or> \<not> is_brick (heap s r)"
    have same: "heap ?s0 r = heap s r" using h0 ne by simp
    from o show "heap s' r = heap s r"
    proof
      assume "r \<notin> set game_objects"
      then show ?thesis using n same by simp
    next
      assume "\<not> is_brick (heap s r)"
      then have "\<not> is_brick (heap ?s0 r)" using same by simp
      then show ?thesis using fr same unfolding frame_def by simp
    qed
  qed
  have fs: "final (hit_bricks game_objects ?s0) = s'" using s' by (simp add: final_def)
  have cs0: "canvas ?s0 = canvas s" by (simp add: set_direction_def)
  note items = hit_bricks_items [OF di hq, unfolded fs cs0]
  have cb: "\<forall>r\<in>set game_objects. \<forall>br. heap s r = Some (Brick br) \<longrightarrow>
           citems (canvas s') r =
             (if hits br - 1 = 0 then None
              else map_option (\<lambda>it. it\<lparr>fill := COLORS (hits br - 1)\<rparr>) (citems (canvas s) r))"
  proof (intro ballI allI impI)
    fix r br assume r: "r \<in> set game_objects" and b: "heap s r = Some (Brick br)"
    then have "r \<noteq> self" using h by auto
    then have "heap ?s0 r = Some (Brick br)" using h0 b by simp
    then show "citems (canvas s') r =
             (if hits br - 1 = 0 then None
              else map_option (\<lambda>it. it\<lparr>fill := COLORS (hits br - 1)\<rparr>) (citems (canvas s) r))"
      using items r by blast
  qed
  have co: "\<forall>r. r \<notin> set game_objects \<or> \<not> is_brick (heap s r) \<longrightarrow>
           citems (canvas s') r = citems (canvas s) r"
  proof (intro allI impI)
    fix r assume o: "r \<notin> set game_objects \<or> \<not> is_brick (heap s r)"
    from o show "citems (canvas s') r = citems (canvas s) r"
    proof
      assume "r \<notin> set game_objects"
      then show ?thesis using items by blast
    next
      assume nb: "\<not> is_brick (heap s r)"
      have "\<not> is_brick (heap ?s0 r)"
      proof (cases "r = self")
        case True
        then show ?thesis using h0 by (simp add: is_brick_def)
      next
        case False
        then show ?thesis using h0 nb by simp
      qed
      then have "citems (canvas s') r = citems (canvas ?s0) r"
        using fr unfolding frame_def by blast
      then show ?thesis using cs0 by simp
    qed
  qed
  show ?thesis
  proof (intro exI conjI)
    show "collide self game_objects s = Inr s'" by (rule e)
    show "frame (set_direction self b d s) s'" by (rule fr)
    show "heap s' self = Some (Ball (b\<lparr>direction := d\<rparr>))" by (rule hs)
  qed (rule d1 d2 hb ho cb co)+
qed


text \<open>
  C1. \<^verbatim>\<open>Ball.collide\<close> with a non-empty list of distinct game objects as
  \<^verbatim>\<open>check_collisions\<close> finds them (on the canvas; bricks with 1 to 3 hits left), for a
  ball on the canvas: the call returns; with more than one object the y component of the
  direction is negated; with exactly one object and \<open>x\<close> the ball's horizontal centre, the
  x component is set to 1 when \<open>x\<close> is right of the object's right edge, to -1 when \<open>x\<close> is
  left of its left edge, and otherwise the y component is negated; every brick in the list
  receives exactly one hit: its hit counter is lowered by exactly one and its canvas item is
  removed when the new count is zero and otherwise recoloured to the color of the new count;
  no other object but the ball changes, and no other canvas item changes.
\<close>

theorem collide_bounces_and_hits:
  assumes "heap s self = Some (Ball b)"
    and "get_position s self = [x1, y1, x2, y2]"
    and "game_objects \<noteq> []"
    and "distinct game_objects"
    and "\<forall>r\<in>set game_objects. hittable s r \<and> length (get_position s r) = 4"
  shows "\<exists>s' d. collide self game_objects s = Inr s'
     \<and> heap s' self = Some (Ball (b\<lparr>direction := d\<rparr>))
     \<and> (1 < length game_objects \<longrightarrow> d = (fst (direction b), - snd (direction b)))
     \<and> (\<forall>g. game_objects = [g] \<longrightarrow>
           d = (if (x1 + x2) * 0.5 > get_position s g ! 2 then (1, snd (direction b))
                else if (x1 + x2) * 0.5 < get_position s g ! 0 then (-1, snd (direction b))
                else (fst (direction b), - snd (direction b))))
     \<and> (\<forall>r\<in>set game_objects. \<forall>br. heap s r = Some (Brick br) \<longrightarrow>
           heap s' r = Some (Brick (br\<lparr>hits := hits br - 1\<rparr>)))
     \<and> (\<forall>r. r \<noteq> self \<longrightarrow> r \<notin> set game_objects \<or> \<not> is_brick (heap s r) \<longrightarrow>
           heap s' r = heap s r)
     \<and> (\<forall>r\<in>set game_objects. \<forall>br. heap s r = Some (Brick br) \<longrightarrow>
           citems (canvas s') r =
             (if hits br - 1 = 0 then None
              else map_option (\<lambda>it. it\<lparr>fill := COLORS (hits br - 1)\<rparr>) (citems (canvas s) r)))
     \<and> (\<forall>r. r \<notin> set game_objects \<or> \<not> is_brick (heap s r) \<longrightarrow>
           citems (canvas s') r = citems (canvas s) r)"
proof -
  from collide_live [OF assms] obtain s' d where "collide self game_objects s = Inr s'
     \<and> frame (set_direction self b d s) s'
     \<and> heap s' self = Some (Ball (b\<lparr>direction := d\<rparr>))
     \<and> (1 < length game_objects \<longrightarrow> d = (fst (direction b), - snd (direction b)))
     \<and> (\<forall>g. game_objects = [g] \<longrightarrow>
           d = (if (x1 + x2) * 0.5 > get_position s g ! 2 then (1, snd (direction b))
                else if (x1 + x2) * 0.5 < get_position s g ! 0 then (-1, snd (direction b))
                else (fst (direction b), - snd (direction b))))
     \<and> (\<forall>r\<in>set game_objects. \<forall>br. heap s r = Some (Brick br) \<longrightarrow>
           heap s' r = Some (Brick (br\<lparr>hits := hits br - 1\<rparr>)))
     \<and> (\<forall>r. r \<noteq> self \<longrightarrow> r \<notin> set game_objects \<or> \<not> is_brick (heap s r) \<longrightarrow>
           heap s' r = heap s r)
     \<and> (\<forall>r\<in>set game_objects. \<forall>br. heap s r = Some (Brick br) \<longrightarrow>
           citems (canvas s') r =
             (if hits br - 1 = 0 then None
              else map_option (\<lambda>it. it\<lparr>fill := COLORS (hits br - 1)\<rparr>) (citems (canvas s) r)))
     \<and> (\<forall>r. r \<notin> set game_objects \<or> \<not> is_brick (heap s r) \<longrightarrow>
           citems (canvas s') r = citems (canvas s) r)"
    by blast
  then show ?thesis by (intro exI [of _ s'] exI [of _ d]) simp
qed

theorem collide_bounces_and_hits_witness:
  "heap (demo [260, 321, 340, 331] [85, 65, 105, 85] None 3) 5 = Some (Ball demo_ball)
   \<and> get_position (demo [260, 321, 340, 331] [85, 65, 105, 85] None 3) 5 = [85, 65, 105, 85]
   \<and> distinct [3 :: nat]
   \<and> hittable (demo [260, 321, 340, 331] [85, 65, 105, 85] None 3) 3
   \<and> length (get_position (demo [260, 321, 340, 331] [85, 65, 105, 85] None 3) 3) = 4
   \<and> (\<exists>s'. collide 5 [3] (demo [260, 321, 340, 331] [85, 65, 105, 85] None 3) = Inr s'
         \<and> heap s' 5 = Some (Ball (demo_ball\<lparr>direction := (1, -1)\<rparr>))
         \<and> heap s' 3 = Some (Brick (demo_brick 1))
         \<and> heap s' 4 = Some (Brick (demo_brick 1))
         \<and> heap s' 1 = Some (Paddle (demo_paddle None))
         \<and> citems (canvas s') 3 = Some (demo_rect [5, 60, 80, 80] ''#999999'' [''brick''])
         \<and> citems (canvas s') 4 = Some (demo_rect [5, 80, 80, 100] ''#999999'' [''brick'']))
   \<and> (\<exists>s'. collide 5 [3, 4] (demo [260, 321, 340, 331] [75, 75, 95, 95] None 3) = Inr s'
         \<and> heap s' 5 = Some (Ball (demo_ball\<lparr>direction := (1, 1)\<rparr>))
         \<and> heap s' 3 = Some (Brick (demo_brick 1))
         \<and> heap s' 4 = Some (Brick (demo_brick 0))
         \<and> heap s' 2 = Some (Brick (demo_brick 3))
         \<and> citems (canvas s') 3 = Some (demo_rect [5, 60, 80, 80] ''#999999'' [''brick''])
         \<and> citems (canvas s') 4 = None
         \<and> citems (canvas s') 2 = Some (demo_rect [5, 40, 80, 60] ''#222222'' [''brick'']))"
proof -
  let ?s = "demo [260, 321, 340, 331] [85, 65, 105, 85] None 3"
  let ?t = "demo [260, 321, 340, 331] [75, 75, 95, 95] None 3"
  have h: "heap ?s 5 = Some (Ball demo_ball)" and h': "heap ?t 5 = Some (Ball demo_ball)" by simp_all
  have p: "get_position ?s 5 = [85, 65, 105, 85]" and p': "get_position ?t 5 = [75, 75, 95, 95]"
    by simp_all
  have l: "\<forall>r\<in>set [3]. hittable ?s r \<and> length (get_position ?s r) = 4"
    by (simp add: hittable_def demo_brick_def)
  have l': "\<forall>r\<in>set [3, 4]. hittable ?t r \<and> length (get_position ?t r) = 4"
    by (simp add: hittable_def demo_brick_def)
  have c: "citems (canvas ?s) 3 = Some (demo_rect [5, 60, 80, 80] ''#555555'' [''brick''])"
    "citems (canvas ?s) 4 = Some (demo_rect [5, 80, 80, 100] ''#999999'' [''brick''])"
    by (simp_all add: demo_def demo_canvas_def)
  have c': "citems (canvas ?t) 3 = Some (demo_rect [5, 60, 80, 80] ''#555555'' [''brick''])"
    "citems (canvas ?t) 2 = Some (demo_rect [5, 40, 80, 60] ''#222222'' [''brick''])"
    by (simp_all add: demo_def demo_canvas_def)
  have one: "\<exists>s'. collide 5 [3] ?s = Inr s'
         \<and> heap s' 5 = Some (Ball (demo_ball\<lparr>direction := (1, -1)\<rparr>))
         \<and> heap s' 3 = Some (Brick (demo_brick 1))
         \<and> heap s' 4 = Some (Brick (demo_brick 1))
         \<and> heap s' 1 = Some (Paddle (demo_paddle None))
         \<and> citems (canvas s') 3 = Some (demo_rect [5, 60, 80, 80] ''#999999'' [''brick''])
         \<and> citems (canvas s') 4 = Some (demo_rect [5, 80, 80, 100] ''#999999'' [''brick''])"
    using collide_bounces_and_hits [OF h p _ _ l] c
    by (auto simp: demo_ball_def demo_brick_def is_brick_def demo_rect_def COLORS_simps)
  have two: "\<exists>s'. collide 5 [3, 4] ?t = Inr s'
         \<and> heap s' 5 = Some (Ball (demo_ball\<lparr>direction := (1, 1)\<rparr>))
         \<and> heap s' 3 = Some (Brick (demo_brick 1))
         \<and> heap s' 4 = Some (Brick (demo_brick 0))
         \<and> heap s' 2 = Some (Brick (demo_brick 3))
         \<and> citems (canvas s') 3 = Some (demo_rect [5, 60, 80, 80] ''#999999'' [''brick''])
         \<and> citems (canvas s') 4 = None
         \<and> citems (canvas s') 2 = Some (demo_rect [5, 40, 80, 60] ''#222222'' [''brick''])"
    using collide_bounces_and_hits [OF h' p' _ _ l'] c'
    by (auto simp: demo_ball_def demo_brick_def is_brick_def demo_rect_def COLORS_simps)
  show ?thesis using h p l one two by simp
qed

subsection \<open>The game loop\<close>

lemma returns_final: "returns r \<Longrightarrow> r = Inr (final r)"
  by (cases r) (simp_all add: returns_def final_def)

lemma set_direction_same:
  "heap s self = Some (Ball b) \<Longrightarrow> set_direction self b (direction b) s = s"
  by (simp add: set_direction_def fun_upd_idem)

lemma collide_Inr_frame:
  assumes h: "heap s self = Some (Ball b)" and c: "collide self objs s = Inr s1"
  shows "\<exists>d. frame (set_direction self b d s) s1"
proof -
  have "\<not> (getitem (get_position s self) 0 = None \<or> getitem (get_position s self) 2 = None)"
  proof
    assume "getitem (get_position s self) 0 = None \<or> getitem (get_position s self) 2 = None"
    from collide_no_position [OF h this, of objs] c show False by simp
  qed
  then obtain p0 p2 where p: "getitem (get_position s self) 0 = Some p0"
    "getitem (get_position s self) 2 = Some p2" by auto
  let ?r = "bounce self b ((p0 + p2) * 0.5) objs s"
  have e: "and_then ?r (hit_bricks objs) = Inr s1"
    using collide_bounce [OF h p, of objs] c by simp
  from bounce_cases [of self b "(p0 + p2) * 0.5" objs s]
  consider e where "?r = Inl (e, s)" | "?r = Inr s"
    | d where "?r = Inr (set_direction self b d s)" by blast
  then show ?thesis
  proof cases
    case 1
    then show ?thesis using e by (simp add: and_then_def)
  next
    case 2
    then have "hit_bricks objs s = Inr s1" using e by (simp add: and_then_def)
    then have "frame s s1" using hit_bricks_frame [of s objs] by (simp add: final_def)
    then have "frame (set_direction self b (direction b) s) s1"
      using set_direction_same [OF h] by simp
    then show ?thesis by blast
  next
    case 3
    then have "hit_bricks objs (set_direction self b d s) = Inr s1" using e by (simp add: and_then_def)
    then have "frame (set_direction self b d s) s1"
      using hit_bricks_frame [of "set_direction self b d s" objs] by (simp add: final_def)
    then show ?thesis by blast
  qed
qed

lemma check_collisions_collide:
  assumes "ball s = Some b" and "get_position s b = [x1, y1, x2, y2]"
  shows "check_collisions ov s =
     collide b (List.map_filter (items s) (find_overlapping ov (canvas s) x1 y1 x2 y2)) s"
  using assms by (simp add: check_collisions_def Let_def)

lemma check_collisions_position:
  assumes "returns (check_collisions ov s)" and "ball s = Some b"
  shows "\<exists>x1 y1 x2 y2. get_position s b = [x1, y1, x2, y2]"
  using assms
  by (auto simp: check_collisions_def returns_def split: list.splits)

text \<open>The state after the collision check of a tick.\<close>

lemma after_collisions:
  assumes r: "returns (check_collisions ov s)"
    and b: "ball s = Some b"
    and h: "heap s b = Some (Ball bo)"
  shows "\<exists>c hp d. final (check_collisions ov s) = s\<lparr>canvas := (canvas s)\<lparr>citems := c\<rparr>, heap := hp\<rparr>
    \<and> hp b = Some (Ball (bo\<lparr>direction := d\<rparr>))
    \<and> c b = citems (canvas s) b
    \<and> (\<forall>q. q \<noteq> b \<longrightarrow> \<not> is_brick (heap s q) \<longrightarrow> hp q = heap s q \<and> c q = citems (canvas s) q)"
proof -
  let ?s1 = "final (check_collisions ov s)"
  from check_collisions_position [OF r b] obtain x1 y1 x2 y2
    where p: "get_position s b = [x1, y1, x2, y2]" by blast
  have "collide b (List.map_filter (items s) (find_overlapping ov (canvas s) x1 y1 x2 y2)) s = Inr ?s1"
    using returns_final [OF r] check_collisions_collide [OF b p, of ov] by simp
  from collide_Inr_frame [OF h this] obtain d where fr: "frame (set_direction b bo d s) ?s1" by blast
  let ?s0 = "set_direction b bo d s"
  have h0: "heap ?s0 = (heap s)(b \<mapsto> Ball (bo\<lparr>direction := d\<rparr>))" and c0: "canvas ?s0 = canvas s"
    by (simp_all add: set_direction_def)
  from fr obtain hp c where e: "?s1 = ?s0\<lparr>canvas := (canvas ?s0)\<lparr>citems := c\<rparr>, heap := hp\<rparr>"
    unfolding frame_def by blast
  then have e': "?s1 = s\<lparr>canvas := (canvas s)\<lparr>citems := c\<rparr>, heap := hp\<rparr>"
    by (simp add: set_direction_def)
  have hc: "heap ?s1 = hp" "citems (canvas ?s1) = c" using e' by simp_all
  have nb: "\<not> is_brick (heap ?s0 b)" using h0 by (simp add: is_brick_def)
  have 1: "hp b = Some (Ball (bo\<lparr>direction := d\<rparr>))" and 2: "c b = citems (canvas s) b"
    using fr nb h0 c0 hc unfolding frame_def by auto
  have 3: "\<forall>q. q \<noteq> b \<longrightarrow> \<not> is_brick (heap s q) \<longrightarrow> hp q = heap s q \<and> c q = citems (canvas s) q"
  proof (intro allI impI)
    fix q assume "q \<noteq> b" and "\<not> is_brick (heap s q)"
    then have "\<not> is_brick (heap ?s0 q)" and "heap ?s0 q = heap s q" using h0 by simp_all
    then show "hp q = heap s q \<and> c q = citems (canvas s) q"
      using fr c0 hc unfolding frame_def by auto
  qed
  show ?thesis using e' 1 2 3 by blast
qed

lemma game_loop_Inr:
  assumes "check_collisions ov s = Inr s1"
  shows "game_loop ov s =
    (let num_bricks = length (find_withtag (canvas s1) ''brick'')
     in if num_bricks = 0 then
          and_then (stop_ball s1) (\<lambda>s2. Inr (snd (draw_text 300 200 ''You win!'' 40 s2)))
        else
          (case ball s1 of
             None \<Rightarrow> Inl (AttributeError, s1)
           | Some b \<Rightarrow>
               (case getitem (get_position s1 b) 3 of
                  None \<Rightarrow> Inl (IndexError, s1)
                | Some bottom \<Rightarrow>
                    if bottom \<ge> of_int (height s1) then
                      and_then (stop_ball s1) (\<lambda>s2.
                        (let s3 = s2\<lparr>lives := lives s2 - 1\<rparr>
                         in if lives s3 \<le> 0 then
                              Inr (snd (draw_text 300 200 ''Game Over'' 40 s3))
                            else
                              and_then (setup_game s3) (\<lambda>s4. Inr (after 1000 no_callback s4))))
                    else
                      and_then (update b s1) (\<lambda>s2. Inr (after 50 game_loop_callback s2)))))"
  unfolding game_loop_def assms by (simp only: and_then_def sum.case)

lemma game_loop_win_branch:
  assumes "check_collisions ov s = Inr s1"
    and "find_withtag (canvas s1) ''brick'' = []"
  shows "game_loop ov s =
      and_then (stop_ball s1) (\<lambda>s2. Inr (snd (draw_text 300 200 ''You win!'' 40 s2)))"
  unfolding game_loop_Inr [OF assms(1)] using assms(2) by (simp add: Let_def)




lemma stop_ball_Inr:
  "ball s = Some b \<Longrightarrow> heap s b = Some (Ball bo) \<Longrightarrow>
     stop_ball s = Inr (s\<lparr>heap := (heap s)(b \<mapsto> Ball (bo\<lparr>speed := None\<rparr>))\<rparr>)"
  by (simp add: stop_ball_def)

lemma draw_text_effect:
  "draw_text x y txt sz s =
     (next_id (canvas s),
      s\<lparr>canvas := (canvas s)\<lparr>citems := (citems (canvas s))(next_id (canvas s) \<mapsto> text_of x y txt sz),
                             next_id := Suc (next_id (canvas s))\<rparr>\<rparr>)"
  by (simp add: draw_text_def create_text_def create_def text_of_def)

text \<open>
  C5. A tick whose collision check returns and leaves no canvas item tagged \<^verbatim>\<open>brick\<close>:
  the tick returns, the ball's speed is \<^verbatim>\<open>None\<close>, the text \<^verbatim>\<open>You win!\<close> is drawn at
  (300, 200), and nothing is scheduled. No condition is put on the ball's position and the
  lives stay as they were: the win check comes before the ball-lost check.
\<close>

theorem game_loop_win:
  assumes "returns (check_collisions ov s)"
    and "ball s = Some b"
    and "heap s b = Some (Ball bo)"
    and "find_withtag (canvas (final (check_collisions ov s))) ''brick'' = []"
  shows "\<exists>s' bo'. game_loop ov s = Inr s'
    \<and> heap s' b = Some (Ball bo') \<and> speed bo' = None
    \<and> citems (canvas s') (next_id (canvas s)) = Some (text_of 300 200 ''You win!'' 40)
    \<and> after_calls s' = after_calls s
    \<and> lives s' = lives s"
proof -
  let ?s1 = "final (check_collisions ov s)"
  have cc: "check_collisions ov s = Inr ?s1" by (rule returns_final [OF assms(1)])
  from after_collisions [OF assms(1-3)] obtain c hp d
    where e: "?s1 = s\<lparr>canvas := (canvas s)\<lparr>citems := c\<rparr>, heap := hp\<rparr>"
      and hb: "hp b = Some (Ball (bo\<lparr>direction := d\<rparr>))" by blast
  have b1: "ball ?s1 = Some b" and h1: "heap ?s1 b = Some (Ball (bo\<lparr>direction := d\<rparr>))"
    and n1: "next_id (canvas ?s1) = next_id (canvas s)"
    and a1: "after_calls ?s1 = after_calls s" and l1: "lives ?s1 = lives s"
    unfolding e using assms(2) hb by simp_all
  have g: "game_loop ov s =
      and_then (stop_ball ?s1) (\<lambda>s2. Inr (snd (draw_text 300 200 ''You win!'' 40 s2)))"
    by (rule game_loop_win_branch [OF cc assms(4)])
  show ?thesis
    unfolding g stop_ball_Inr [OF b1 h1] using n1 a1 l1
    by (simp add: and_then_def draw_text_effect)
qed


theorem game_loop_win_witness:
  "returns (check_collisions box_overlap (demo_cleared [260, 321, 340, 331] [290, 385, 310, 405] None 3))
   \<and> ball (demo_cleared [260, 321, 340, 331] [290, 385, 310, 405] None 3) = Some 5
   \<and> heap (demo_cleared [260, 321, 340, 331] [290, 385, 310, 405] None 3) 5 = Some (Ball demo_ball)
   \<and> find_withtag (canvas (final (check_collisions box_overlap
         (demo_cleared [260, 321, 340, 331] [290, 385, 310, 405] None 3)))) ''brick'' = []
   \<and> get_position (demo_cleared [260, 321, 340, 331] [290, 385, 310, 405] None 3) 5
        = [290, 385, 310, 405]
   \<and> (405 :: real) \<ge> of_int (height (demo_cleared [260, 321, 340, 331] [290, 385, 310, 405] None 3))
   \<and> (\<exists>s' bo'. game_loop box_overlap (demo_cleared [260, 321, 340, 331] [290, 385, 310, 405] None 3)
          = Inr s'
        \<and> heap s' 5 = Some (Ball bo') \<and> speed bo' = None
        \<and> citems (canvas s') 6 = Some (text_of 300 200 ''You win!'' 40)
        \<and> after_calls s' = []
        \<and> lives s' = 3)"
proof -
  let ?s = "demo_cleared [260, 321, 340, 331] [290, 385, 310, 405] None 3"
  have r: "returns (check_collisions box_overlap ?s)" by code_simp
  have b: "ball ?s = Some 5" by (simp add: demo_cleared_def Let_def)
  have h: "heap ?s 5 = Some (Ball demo_ball)" by (simp add: demo_cleared_def Let_def)
  have w: "find_withtag (canvas (final (check_collisions box_overlap ?s))) ''brick'' = []"
    by code_simp
  have p: "get_position ?s 5 = [290, 385, 310, 405]" by code_simp
  have f: "next_id (canvas ?s) = 6" "after_calls ?s = []" "lives ?s = 3" "height ?s = 400"
    by (simp_all add: demo_cleared_def Let_def canvas_delete_def)
  show ?thesis
    using game_loop_win [OF r b h w] r b h w p f by simp
qed

















end
